theory Spec2Isabelle
  imports Main "HOL-Library.Word" "HOL-Library.Multiset"
begin

section \<open>The channel list model of the QML GUI (qechannellistmodel.py)\<close>

text \<open>
  A shallow embedding of the class \<open>QEChannelListModel\<close>. A row of the list is the
  Python dict that \<open>channel_to_model\<close> builds, so it is a map from role names to Python
  values. Every raise of the source is a value \<open>Inl e\<close>; every call into the Qt
  framework and every log line is an entry of the list of signals an operation returns.
\<close>

subsection \<open>Python values, errors and indexing\<close>

datatype error = AttributeError | IndexError | KeyError | TypeError | AssertionError

text \<open>
  \<open>QEAmount\<close> is declared in \<open>qetypes.py\<close>, outside this file. The model keeps the
  keyword arguments of the constructor call as the source passes them: \<open>None\<close> is an
  argument that is not given, so \<open>QEAmount()\<close> is \<open>QEAmount None None\<close>.
\<close>

datatype QEAmount = QEAmount (amount_sat: "int option") (amount_msat: "int option")

text \<open>
  The values a row can hold and that \<open>data\<close> tells apart with \<open>isinstance\<close>.
  \<open>VSatoshis n\<close> is a \<open>Satoshis\<close> object whose \<open>value\<close> is \<open>n\<close>; \<open>VOther s\<close> is
  any other object, \<open>s\<close> being what \<open>str\<close> gives for it.
\<close>

datatype pyval =
    VNone
  | VBool bool
  | VInt int
  | VStr string
  | VList "pyval list"
  | VAmount QEAmount
  | VSatoshis int
  | VOther string

type_synonym row = "string \<rightharpoonup> pyval"

text \<open>\<open>xs[i]\<close> on a list or tuple: a negative index counts from the end.\<close>

definition py_index :: "'a list \<Rightarrow> int \<Rightarrow> error + nat" where
  "py_index xs i =
     (if 0 \<le> i \<and> i < int (length xs) then Inr (nat i)
      else if i < 0 \<and> - int (length xs) \<le> i then Inr (nat (int (length xs) + i))
      else Inl IndexError)"

definition py_getitem :: "'a list \<Rightarrow> int \<Rightarrow> error + 'a" where
  "py_getitem xs i = (case py_index xs i of Inl e \<Rightarrow> Inl e | Inr j \<Rightarrow> Inr (xs ! j))"

text \<open>\<open>d[k]\<close> on a dict.\<close>

definition dict_getitem :: "row \<Rightarrow> string \<Rightarrow> error + pyval" where
  "dict_getitem d k = (case d k of None \<Rightarrow> Inl KeyError | Some v \<Rightarrow> Inr v)"

text \<open>Truth value of an object, as \<open>if\<close> tests it.\<close>

fun truthy :: "pyval \<Rightarrow> bool" where
  "truthy VNone = False"
| "truthy (VBool b) = b"
| "truthy (VInt n) = (n \<noteq> 0)"
| "truthy (VStr s) = (s \<noteq> [])"
| "truthy (VList l) = (l \<noteq> [])"
| "truthy (VAmount a) = True"
| "truthy (VSatoshis n) = True"
| "truthy (VOther s) = True"

text \<open>\<open>v == s\<close> for a string \<open>s\<close>, and \<open>v == n\<close> for an integer \<open>n\<close> (a bool is an int).\<close>

fun py_eq_str :: "pyval \<Rightarrow> string \<Rightarrow> bool" where
  "py_eq_str (VStr t) s = (t = s)"
| "py_eq_str _ s = False"

fun py_eq_int :: "pyval \<Rightarrow> int \<Rightarrow> bool" where
  "py_eq_int (VInt m) n = (m = n)"
| "py_eq_int (VBool b) n = ((if b then 1 else 0) = n)"
| "py_eq_int _ n = False"

text \<open>
  \<open>v + n\<close> for an integer \<open>n\<close>. It is defined for an int and a bool; for any
  other value the addition raises, and the model takes \<open>TypeError\<close> for all of them.
\<close>

fun py_add_int :: "pyval \<Rightarrow> int \<Rightarrow> error + int" where
  "py_add_int (VInt m) n = Inr (m + n)"
| "py_add_int (VBool b) n = Inr ((if b then 1 else 0) + n)"
| "py_add_int _ n = Inl TypeError"

text \<open>\<open>bytes.hex()\<close>: two lower-case hexadecimal digits for each byte.\<close>

type_synonym bytes = "8 word list"

definition hexdigit :: "nat \<Rightarrow> char" where
  "hexdigit n = ''0123456789abcdef'' ! n"

definition hex_byte :: "8 word \<Rightarrow> string" where
  "hex_byte b = [hexdigit (unat b div 16), hexdigit (unat b mod 16)]"

definition bytes_hex :: "bytes \<Rightarrow> string" where
  "bytes_hex bs = concat (map hex_byte bs)"

text \<open>
  \<open>list.sort(key=f)\<close>: the keys are computed first, one for each element and from left
  to right, and an exception of \<open>f\<close> ends the sort. The sort is stable, which fixes its
  result: it is the one of the stable insertion sort \<open>sort_key\<close>.
\<close>

fun sort_keys :: "('a \<Rightarrow> error + int) \<Rightarrow> 'a list \<Rightarrow> error + int list" where
  "sort_keys f [] = Inr []"
| "sort_keys f (x # xs) =
     (case f x of Inl e \<Rightarrow> Inl e
      | Inr k \<Rightarrow> (case sort_keys f xs of Inl e \<Rightarrow> Inl e | Inr ks \<Rightarrow> Inr (k # ks)))"

definition py_sort :: "('a \<Rightarrow> error + int) \<Rightarrow> 'a list \<Rightarrow> error + 'a list" where
  "py_sort f xs =
     (case sort_keys f xs of Inl e \<Rightarrow> Inl e
      | Inr ks \<Rightarrow> Inr (map snd (sort_key fst (zip ks xs))))"

subsection \<open>The wallet and its channels, as the adapter reads them\<close>

datatype HTLCOwner = LOCAL | REMOTE

text \<open>
  A channel object of the Lightning engine: one field for each attribute and each
  method without side effect that this file reads.
\<close>

record Channel =
  channel_id :: bytes
  node_id :: bytes
  short_id_for_GUI :: string
  get_state_for_GUI :: string
  get_state :: int
  is_backup :: bool
  is_imported :: bool
  get_capacity :: int
  available_to_spend :: "HTLCOwner \<Rightarrow> int"
  balance :: "HTLCOwner \<Rightarrow> int"

text \<open>
  The Lightning engine. \<open>get_channel_objects\<close> and \<open>lnchannels\<close> are the values, in
  the order of the dict, of \<open>lnworker.get_channel_objects()\<close> and of
  \<open>lnworker.channels\<close>: the source reads both dicts through \<open>.values()\<close> only.
\<close>

record LNWorker =
  get_channel_objects :: "Channel list"
  lnchannels :: "Channel list"
  get_node_alias :: "bytes \<Rightarrow> string option"
  is_trampoline_peer :: "bytes \<Rightarrow> bool"

record Wallet =
  lnworker :: "LNWorker option"

subsection \<open>The adapter\<close>

text \<open>
  \<open>Qt.UserRole\<close>, a constant of the Qt framework. The role names and the role keys
  are pairwise distinct, so \<open>dict(zip(...))\<close> is \<open>map_of (zip ...)\<close>.
\<close>

definition UserRole :: int where
  "UserRole = 256"

definition ROLE_NAMES :: "string list" where
  "ROLE_NAMES =
     [''cid'', ''state'', ''state_code'', ''initiator'', ''capacity'', ''can_send'',
      ''can_receive'', ''l_csv_delay'', ''r_csv_delay'', ''send_frozen'', ''receive_frozen'',
      ''type'', ''node_id'', ''node_alias'', ''short_cid'', ''funding_tx'', ''is_trampoline'',
      ''is_backup'', ''is_imported'', ''local_capacity'', ''remote_capacity'']"

definition ROLE_KEYS :: "int list" where
  "ROLE_KEYS = map int [nat UserRole ..< nat UserRole + length ROLE_NAMES]"

definition ROLE_MAP :: "int \<rightharpoonup> string" where
  "ROLE_MAP = map_of (zip ROLE_KEYS ROLE_NAMES)"

definition ROLE_RMAP :: "string \<rightharpoonup> int" where
  "ROLE_RMAP = map_of (zip ROLE_NAMES ROLE_KEYS)"

text \<open>What the adapter logs, and what it tells the Qt framework.\<close>

datatype logmsg = Msg string | MsgItem row

datatype signal =
    LogDebug logmsg
  | LogWarning logmsg
  | BeginResetModel
  | EndResetModel
  | BeginInsertRows int int
  | EndInsertRows
  | BeginRemoveRows int int
  | EndRemoveRows
  | CountChanged
  | DataChanged int int "int list"
  | NumOpenChannelsChanged

text \<open>The filter proxy that \<open>filterModel\<close> sets up: its role and the value to match.\<close>

record FilterProxy =
  filterRole :: int
  filterValue :: pyval

text \<open>
  The attributes of the object. \<open>channels = None\<close> is the object before any
  assignment to \<open>self.channels\<close>: reading the attribute raises then.
\<close>

record QEChannelListModel =
  channels :: "row list option"
  fm_backups :: "FilterProxy option"
  fm_nobackups :: "FilterProxy option"

definition rowCount :: "QEChannelListModel \<Rightarrow> error + int" where
  "rowCount self =
     (case channels self of None \<Rightarrow> Inl AttributeError
      | Some chans \<Rightarrow> Inr (int (length chans)))"

definition count_property :: "QEChannelListModel \<Rightarrow> error + int" where
  "count_property self =
     (case channels self of None \<Rightarrow> Inl AttributeError
      | Some chans \<Rightarrow> Inr (int (length chans)))"

definition roleNames :: "int \<rightharpoonup> string" where
  "roleNames = ROLE_MAP"

fun data_value :: "pyval \<Rightarrow> pyval" where
  "data_value (VSatoshis n) = VInt n"
| "data_value (VOther s) = VStr s"
| "data_value v = v"

definition data :: "QEChannelListModel \<Rightarrow> int \<Rightarrow> int \<Rightarrow> error + pyval" where
  "data self index_row role =
     (case channels self of None \<Rightarrow> Inl AttributeError
      | Some chans \<Rightarrow>
          (case py_getitem chans index_row of Inl e \<Rightarrow> Inl e
           | Inr tx \<Rightarrow>
               (let role_index = role - UserRole in
                case py_getitem ROLE_NAMES role_index of Inl e \<Rightarrow> Inl e
                | Inr name \<Rightarrow>
                    (case dict_getitem tx name of Inl e \<Rightarrow> Inl e
                     | Inr v \<Rightarrow> Inr (data_value v)))))"

definition clear :: "QEChannelListModel \<Rightarrow> QEChannelListModel \<times> signal list" where
  "clear self = (self\<lparr>channels := Some []\<rparr>, [BeginResetModel, EndResetModel])"

definition channel_to_model :: "Wallet \<Rightarrow> Channel \<Rightarrow> error + row" where
  "channel_to_model wallet lnc =
     (case lnworker wallet of None \<Rightarrow> Inl AttributeError
      | Some lnw \<Rightarrow>
          (let item = Map.empty;
               item = item(''cid'' \<mapsto> VStr (bytes_hex (channel_id lnc)));
               item = item(''node_id'' \<mapsto> VStr (bytes_hex (node_id lnc)));
               item = item(''node_alias'' \<mapsto>
                        VStr (case get_node_alias lnw (node_id lnc) of None \<Rightarrow> ''''
                              | Some a \<Rightarrow> if a \<noteq> [] then a else ''''));
               item = item(''short_cid'' \<mapsto> VStr (short_id_for_GUI lnc));
               item = item(''state'' \<mapsto> VStr (get_state_for_GUI lnc));
               item = item(''state_code'' \<mapsto> VInt (get_state lnc));
               item = item(''is_backup'' \<mapsto> VBool (is_backup lnc));
               item = item(''is_trampoline'' \<mapsto> VBool (is_trampoline_peer lnw (node_id lnc)));
               item = item(''capacity'' \<mapsto> VAmount (QEAmount (Some (get_capacity lnc)) None))
           in if is_backup lnc then
                (let item = item(''can_send'' \<mapsto> VAmount (QEAmount None None));
                     item = item(''can_receive'' \<mapsto> VAmount (QEAmount None None));
                     item = item(''local_capacity'' \<mapsto> VAmount (QEAmount None None));
                     item = item(''remote_capacity'' \<mapsto> VAmount (QEAmount None None));
                     item = item(''is_imported'' \<mapsto> VBool (is_imported lnc))
                 in Inr item)
              else
                (let item = item(''can_send'' \<mapsto>
                              VAmount (QEAmount None (Some (available_to_spend lnc LOCAL))));
                     item = item(''can_receive'' \<mapsto>
                              VAmount (QEAmount None (Some (available_to_spend lnc REMOTE))));
                     item = item(''local_capacity'' \<mapsto>
                              VAmount (QEAmount None (Some (balance lnc LOCAL))));
                     item = item(''remote_capacity'' \<mapsto>
                              VAmount (QEAmount None (Some (balance lnc REMOTE))));
                     item = item(''is_imported'' \<mapsto> VBool False)
                 in Inr item)))"

text \<open>
  \<open>numOpenChannels\<close>. \<open>ChannelState.OPEN\<close> is declared in \<open>lnchannel.py\<close>, outside
  this file, so it is the parameter \<open>OPEN\<close>.
\<close>

fun numOpenChannels_sum :: "int \<Rightarrow> row list \<Rightarrow> error + int" where
  "numOpenChannels_sum OPEN [] = Inr 0"
| "numOpenChannels_sum OPEN (x # xs) =
     (case dict_getitem x ''state_code'' of Inl e \<Rightarrow> Inl e
      | Inr v \<Rightarrow>
          (case numOpenChannels_sum OPEN xs of Inl e \<Rightarrow> Inl e
           | Inr n \<Rightarrow> Inr ((if py_eq_int v OPEN then 1 else 0) + n)))"

definition numOpenChannels :: "int \<Rightarrow> QEChannelListModel \<Rightarrow> error + int" where
  "numOpenChannels OPEN self =
     (case channels self of None \<Rightarrow> Inl AttributeError
      | Some chans \<Rightarrow> numOpenChannels_sum OPEN chans)"

text \<open>The loop of \<open>init_model\<close> over the channel objects.\<close>

fun init_model_loop :: "Wallet \<Rightarrow> Channel list \<Rightarrow> row list \<Rightarrow> error + row list" where
  "init_model_loop wallet [] chans = Inr chans"
| "init_model_loop wallet (channel # rest) chans =
     (case channel_to_model wallet channel of Inl e \<Rightarrow> Inl e
      | Inr item \<Rightarrow> init_model_loop wallet rest (chans @ [item]))"

definition chan_sort_score :: "row \<Rightarrow> error + int" where
  "chan_sort_score c =
     (case dict_getitem c ''state_code'' of Inl e \<Rightarrow> Inl e
      | Inr sc \<Rightarrow>
          (case dict_getitem c ''is_backup'' of Inl e \<Rightarrow> Inl e
           | Inr b \<Rightarrow> py_add_int sc (if truthy b then 10 else 0)))"

definition init_model ::
  "Wallet \<Rightarrow> QEChannelListModel \<Rightarrow> error + QEChannelListModel \<times> signal list" where
  "init_model wallet self =
     (case lnworker wallet of
        None \<Rightarrow>
          Inr (self, [LogDebug (Msg ''init_model''),
                      LogWarning (Msg ''lnworker should be defined'')])
      | Some lnw \<Rightarrow>
          (case init_model_loop wallet (get_channel_objects lnw) [] of Inl e \<Rightarrow> Inl e
           | Inr chans \<Rightarrow>
               (case py_sort chan_sort_score chans of Inl e \<Rightarrow> Inl e
                | Inr chans \<Rightarrow>
                    (case clear self of (self, cleared) \<Rightarrow>
                       Inr (self\<lparr>channels := Some chans\<rparr>,
                            [LogDebug (Msg ''init_model'')] @ cleared @
                            [BeginInsertRows 0 (int (length chans) - 1), EndInsertRows,
                             CountChanged])))))"

text \<open>The constructor: no attribute but \<open>wallet\<close> is set before \<open>init_model\<close> runs.\<close>

definition init ::
  "Wallet \<Rightarrow> error + QEChannelListModel \<times> signal list" where
  "init wallet =
     init_model wallet \<lparr>channels = None, fm_backups = None, fm_nobackups = None\<rparr>"

definition do_update ::
  "Wallet \<Rightarrow> QEChannelListModel \<Rightarrow> int \<Rightarrow> Channel \<Rightarrow>
   error + QEChannelListModel \<times> signal list" where
  "do_update wallet self modelindex channel =
     (case channels self of None \<Rightarrow> Inl AttributeError
      | Some chans \<Rightarrow>
          (case py_index chans modelindex of Inl e \<Rightarrow> Inl e
           | Inr j \<Rightarrow>
               (let modelitem = chans ! j in
                case channel_to_model wallet channel of Inl e \<Rightarrow> Inl e
                | Inr item \<Rightarrow>
                    Inr (self\<lparr>channels := Some (chans[j := modelitem ++ item])\<rparr>,
                         [LogDebug (Msg (''updating our channel '' @ short_id_for_GUI channel)),
                          DataChanged modelindex modelindex ROLE_KEYS,
                          NumOpenChannelsChanged]))))"

text \<open>The loop of \<open>on_channel_updated\<close>: \<open>cs\<close> is what is left of the list, \<open>i\<close> the index.\<close>

fun on_channel_updated_loop ::
  "Wallet \<Rightarrow> QEChannelListModel \<Rightarrow> row list \<Rightarrow> int \<Rightarrow> Channel \<Rightarrow>
   error + QEChannelListModel \<times> signal list" where
  "on_channel_updated_loop wallet self [] i channel = Inr (self, [])"
| "on_channel_updated_loop wallet self (c # cs) i channel =
     (case dict_getitem c ''cid'' of Inl e \<Rightarrow> Inl e
      | Inr v \<Rightarrow>
          if py_eq_str v (bytes_hex (channel_id channel))
          then do_update wallet self i channel
          else on_channel_updated_loop wallet self cs (i + 1) channel)"

definition on_channel_updated ::
  "Wallet \<Rightarrow> QEChannelListModel \<Rightarrow> Channel \<Rightarrow>
   error + QEChannelListModel \<times> signal list" where
  "on_channel_updated wallet self channel =
     (case channels self of None \<Rightarrow> Inl AttributeError
      | Some chans \<Rightarrow> on_channel_updated_loop wallet self chans 0 channel)"

text \<open>The loop of \<open>new_channel\<close> over \<open>lnworker.channels\<close>.\<close>

fun new_channel_loop ::
  "Wallet \<Rightarrow> QEChannelListModel \<Rightarrow> Channel list \<Rightarrow> string \<Rightarrow>
   error + QEChannelListModel \<times> signal list" where
  "new_channel_loop wallet self [] cid = Inr (self, [])"
| "new_channel_loop wallet self (channel # rest) cid =
     (if cid = bytes_hex (channel_id channel) then
        (case channel_to_model wallet channel of Inl e \<Rightarrow> Inl e
         | Inr item \<Rightarrow>
             (case channels self of None \<Rightarrow> Inl AttributeError
              | Some chans \<Rightarrow>
                  Inr (self\<lparr>channels := Some (item # chans)\<rparr>,
                       [LogDebug (MsgItem item), BeginInsertRows 0 0, EndInsertRows,
                        CountChanged])))
      else new_channel_loop wallet self rest cid)"

definition new_channel ::
  "Wallet \<Rightarrow> QEChannelListModel \<Rightarrow> string \<Rightarrow>
   error + QEChannelListModel \<times> signal list" where
  "new_channel wallet self cid =
     (case lnworker wallet of None \<Rightarrow> Inl AttributeError
      | Some lnw \<Rightarrow>
          (case new_channel_loop wallet self (lnchannels lnw) cid of Inl e \<Rightarrow> Inl e
           | Inr (self, sigs) \<Rightarrow>
               Inr (self, LogDebug (Msg (''new channel with cid '' @ cid)) # sigs)))"

text \<open>
  The loop of \<open>remove_channel\<close>. \<open>list.remove(x)\<close> deletes the first element equal to
  \<open>x\<close>, which is \<open>remove1\<close>.
\<close>

fun remove_channel_loop ::
  "QEChannelListModel \<Rightarrow> row list \<Rightarrow> row list \<Rightarrow> int \<Rightarrow> string \<Rightarrow>
   error + QEChannelListModel \<times> signal list" where
  "remove_channel_loop self chans [] i cid = Inr (self, [])"
| "remove_channel_loop self chans (channel # rest) i cid =
     (case dict_getitem channel ''cid'' of Inl e \<Rightarrow> Inl e
      | Inr v \<Rightarrow>
          if py_eq_str v cid
          then Inr (self\<lparr>channels := Some (remove1 channel chans)\<rparr>,
                    [LogDebug (Msg cid), BeginRemoveRows i i, EndRemoveRows, CountChanged])
          else remove_channel_loop self chans rest (i + 1) cid)"

definition remove_channel ::
  "QEChannelListModel \<Rightarrow> string \<Rightarrow> error + QEChannelListModel \<times> signal list" where
  "remove_channel self cid =
     (case channels self of None \<Rightarrow> Inl AttributeError
      | Some chans \<Rightarrow>
          (case remove_channel_loop self chans chans 0 cid of Inl e \<Rightarrow> Inl e
           | Inr (self, sigs) \<Rightarrow>
               Inr (self, LogDebug (Msg (''remove channel with cid '' @ cid)) # sigs)))"

definition filterModel :: "string \<Rightarrow> pyval \<Rightarrow> error + FilterProxy" where
  "filterModel role match =
     (if ROLE_RMAP role = None then Inl AssertionError
      else (case ROLE_RMAP role of None \<Rightarrow> Inl KeyError
            | Some r \<Rightarrow> Inr \<lparr>filterRole = r, filterValue = match\<rparr>))"

definition filterModelBackups ::
  "QEChannelListModel \<Rightarrow> error + QEChannelListModel \<times> FilterProxy" where
  "filterModelBackups self =
     (case filterModel ''is_backup'' (VBool True) of Inl e \<Rightarrow> Inl e
      | Inr fm \<Rightarrow> Inr (self\<lparr>fm_backups := Some fm\<rparr>, fm))"

definition filterModelNoBackups ::
  "QEChannelListModel \<Rightarrow> error + QEChannelListModel \<times> FilterProxy" where
  "filterModelNoBackups self =
     (case filterModel ''is_backup'' (VBool False) of Inl e \<Rightarrow> Inl e
      | Inr fm \<Rightarrow> Inr (self\<lparr>fm_nobackups := Some fm\<rparr>, fm))"


subsection \<open>Sequences of operations\<close>

text \<open>
  The operations that the events and the UI trigger. Each one runs against the wallet
  as it is when the call is made, so a step carries its own wallet.
\<close>

datatype op =
    Rebuild
  | ApplyUpdate Channel
  | Insert string
  | Remove string
  | FilterBackups
  | FilterNoBackups

definition apply_op ::
  "Wallet \<Rightarrow> op \<Rightarrow> QEChannelListModel \<Rightarrow> error + QEChannelListModel \<times> signal list" where
  "apply_op wallet operation self =
     (case operation of
        Rebuild \<Rightarrow> init_model wallet self
      | ApplyUpdate channel \<Rightarrow> on_channel_updated wallet self channel
      | Insert cid \<Rightarrow> new_channel wallet self cid
      | Remove cid \<Rightarrow> remove_channel self cid
      | FilterBackups \<Rightarrow>
          (case filterModelBackups self of Inl e \<Rightarrow> Inl e | Inr (self, fm) \<Rightarrow> Inr (self, []))
      | FilterNoBackups \<Rightarrow>
          (case filterModelNoBackups self of Inl e \<Rightarrow> Inl e
           | Inr (self, fm) \<Rightarrow> Inr (self, [])))"

text \<open>A sequence of calls ends at the first exception.\<close>

fun run :: "(Wallet \<times> op) list \<Rightarrow> QEChannelListModel \<Rightarrow> error + QEChannelListModel" where
  "run [] self = Inr self"
| "run ((wallet, operation) # rest) self =
     (case apply_op wallet operation self of Inl e \<Rightarrow> Inl e
      | Inr (self, sigs) \<Rightarrow> run rest self)"

subsection \<open>Properties of rows and lists\<close>

text \<open>The keys that \<open>channel_to_model\<close> assigns, in the order of the source.\<close>

definition MODEL_KEYS :: "string list" where
  "MODEL_KEYS =
     [''cid'', ''node_id'', ''node_alias'', ''short_cid'', ''state'', ''state_code'',
      ''is_backup'', ''is_trampoline'', ''capacity'', ''can_send'', ''can_receive'',
      ''local_capacity'', ''remote_capacity'', ''is_imported'']"

text \<open>A row is a model row when \<open>channel_to_model\<close> returns it for some channel.\<close>

definition model_row :: "row \<Rightarrow> bool" where
  "model_row r \<longleftrightarrow> (\<exists>wallet lnc. channel_to_model wallet lnc = Inr r)"

definition model_rows :: "QEChannelListModel \<Rightarrow> bool" where
  "model_rows self \<longleftrightarrow>
     (case channels self of None \<Rightarrow> True | Some chans \<Rightarrow> list_all model_row chans)"

text \<open>The channel ids of the rows, and their uniqueness.\<close>

definition row_cids :: "row list \<Rightarrow> pyval option list" where
  "row_cids chans = map (\<lambda>c. c ''cid'') chans"

definition unique_cids :: "QEChannelListModel \<Rightarrow> bool" where
  "unique_cids self \<longleftrightarrow>
     (case channels self of None \<Rightarrow> True | Some chans \<Rightarrow> distinct (row_cids chans))"

text \<open>
  An operation is admissible in a state when a rebuild reads a collection whose
  channel ids are pairwise distinct (the collection is a dict keyed by channel id), and
  an insertion names a channel id that no row of the list has.
\<close>

definition admissible :: "Wallet \<Rightarrow> op \<Rightarrow> QEChannelListModel \<Rightarrow> bool" where
  "admissible wallet operation self =
     (case operation of
        Rebuild \<Rightarrow>
          (case lnworker wallet of None \<Rightarrow> True
           | Some lnw \<Rightarrow> distinct (map channel_id (get_channel_objects lnw)))
      | Insert cid \<Rightarrow>
          (case channels self of None \<Rightarrow> True
           | Some chans \<Rightarrow> Some (VStr cid) \<notin> set (row_cids chans))
      | _ \<Rightarrow> True)"

fun admissible_run :: "(Wallet \<times> op) list \<Rightarrow> QEChannelListModel \<Rightarrow> bool" where
  "admissible_run [] self = True"
| "admissible_run ((wallet, operation) # rest) self =
     (admissible wallet operation self \<and>
      (case apply_op wallet operation self of Inl e \<Rightarrow> True
       | Inr (self, sigs) \<Rightarrow> admissible_run rest self))"

text \<open>
  The order that the specification words: ascending by the pair of state code and
  backup flag. \<open>spec_before a b\<close> says that row \<open>a\<close> may stand before row \<open>b\<close>.
\<close>

definition spec_before :: "row \<Rightarrow> row \<Rightarrow> bool" where
  "spec_before a b =
     (case (a ''state_code'', a ''is_backup'', b ''state_code'', b ''is_backup'') of
        (Some (VInt sa), Some (VBool ba), Some (VInt sb), Some (VBool bb)) \<Rightarrow>
          sa < sb \<or> (sa = sb \<and> (ba \<longrightarrow> bb))
      | _ \<Rightarrow> False)"

definition spec_sorted :: "row list \<Rightarrow> bool" where
  "spec_sorted chans = sorted_wrt spec_before chans"

text \<open>The rows an operation leaves, if it returns and the list exists.\<close>

definition rows_of :: "error + QEChannelListModel \<times> signal list \<Rightarrow> row list" where
  "rows_of res =
     (case res of Inl e \<Rightarrow> []
      | Inr (self, sigs) \<Rightarrow> (case channels self of None \<Rightarrow> [] | Some chans \<Rightarrow> chans))"

subsection \<open>A small wallet\<close>

text \<open>
  Two channels for the concrete runs below: an ordinary channel that is open (state
  code 3) and a backup whose funding is confirmed (state code 2).
\<close>

definition chan_a :: Channel where
  "chan_a = \<lparr>channel_id = [0xAB], node_id = [0x02], short_id_for_GUI = ''1x1x0'',
     get_state_for_GUI = ''OPEN'', get_state = 3, is_backup = False,
     is_imported = False, get_capacity = 1000,
     available_to_spend = (\<lambda>who. case who of LOCAL \<Rightarrow> 400000 | REMOTE \<Rightarrow> 500000),
     balance = (\<lambda>who. case who of LOCAL \<Rightarrow> 450000 | REMOTE \<Rightarrow> 550000)\<rparr>"

definition chan_b :: Channel where
  "chan_b = \<lparr>channel_id = [0x0C], node_id = [0x03], short_id_for_GUI = ''2x2x0'',
     get_state_for_GUI = ''FUNDED'', get_state = 2, is_backup = True,
     is_imported = True, get_capacity = 2000,
     available_to_spend = (\<lambda>who. 0), balance = (\<lambda>who. 0)\<rparr>"

definition lnw_ab :: LNWorker where
  "lnw_ab = \<lparr>get_channel_objects = [chan_a, chan_b], lnchannels = [chan_a],
     get_node_alias = (\<lambda>n. if n = [0x02] then Some ''alice'' else None),
     is_trampoline_peer = (\<lambda>n. False)\<rparr>"

definition wallet_ab :: Wallet where
  "wallet_ab = \<lparr>lnworker = Some lnw_ab\<rparr>"

definition wallet_none :: Wallet where
  "wallet_none = \<lparr>lnworker = None\<rparr>"

definition row_a :: row where
  "row_a = [''cid'' \<mapsto> VStr ''ab'', ''node_id'' \<mapsto> VStr ''02'',
     ''node_alias'' \<mapsto> VStr ''alice'', ''short_cid'' \<mapsto> VStr ''1x1x0'',
     ''state'' \<mapsto> VStr ''OPEN'', ''state_code'' \<mapsto> VInt 3,
     ''is_backup'' \<mapsto> VBool False, ''is_trampoline'' \<mapsto> VBool False,
     ''capacity'' \<mapsto> VAmount (QEAmount (Some 1000) None),
     ''can_send'' \<mapsto> VAmount (QEAmount None (Some 400000)),
     ''can_receive'' \<mapsto> VAmount (QEAmount None (Some 500000)),
     ''local_capacity'' \<mapsto> VAmount (QEAmount None (Some 450000)),
     ''remote_capacity'' \<mapsto> VAmount (QEAmount None (Some 550000)),
     ''is_imported'' \<mapsto> VBool False]"

definition row_b :: row where
  "row_b = [''cid'' \<mapsto> VStr ''0c'', ''node_id'' \<mapsto> VStr ''03'',
     ''node_alias'' \<mapsto> VStr '''', ''short_cid'' \<mapsto> VStr ''2x2x0'',
     ''state'' \<mapsto> VStr ''FUNDED'', ''state_code'' \<mapsto> VInt 2,
     ''is_backup'' \<mapsto> VBool True, ''is_trampoline'' \<mapsto> VBool False,
     ''capacity'' \<mapsto> VAmount (QEAmount (Some 2000) None),
     ''can_send'' \<mapsto> VAmount (QEAmount None None),
     ''can_receive'' \<mapsto> VAmount (QEAmount None None),
     ''local_capacity'' \<mapsto> VAmount (QEAmount None None),
     ''remote_capacity'' \<mapsto> VAmount (QEAmount None None),
     ''is_imported'' \<mapsto> VBool True]"

definition new_self :: QEChannelListModel where
  "new_self = \<lparr>channels = None, fm_backups = None, fm_nobackups = None\<rparr>"

definition self_ab :: QEChannelListModel where
  "self_ab = \<lparr>channels = Some [row_a, row_b], fm_backups = None, fm_nobackups = None\<rparr>"

text \<open>The sort key of a row as a number, for rows on which \<open>chan_sort_score\<close> returns.\<close>

definition sort_score :: "row \<Rightarrow> int" where
  "sort_score c = (case chan_sort_score c of Inl e \<Rightarrow> 0 | Inr k \<Rightarrow> k)"

section \<open>Auxiliary facts\<close>

subsection \<open>The rows of \<open>channel_to_model\<close>\<close>

lemma channel_to_model_None:
  "lnworker wallet = None \<Longrightarrow> channel_to_model wallet lnc = Inl AttributeError"
  by (simp add: channel_to_model_def)

lemma channel_to_model_Some:
  "lnworker wallet = Some lnw \<Longrightarrow> \<exists>item. channel_to_model wallet lnc = Inr item"
  by (simp add: channel_to_model_def Let_def)

lemma channel_to_model_cid:
  "channel_to_model wallet lnc = Inr item \<Longrightarrow>
   item ''cid'' = Some (VStr (bytes_hex (channel_id lnc)))"
  by (auto simp: channel_to_model_def Let_def split: option.splits if_splits)

lemma channel_to_model_state_code:
  "channel_to_model wallet lnc = Inr item \<Longrightarrow>
   item ''state_code'' = Some (VInt (get_state lnc))"
  by (auto simp: channel_to_model_def Let_def split: option.splits if_splits)

lemma channel_to_model_is_backup:
  "channel_to_model wallet lnc = Inr item \<Longrightarrow>
   item ''is_backup'' = Some (VBool (is_backup lnc))"
  by (auto simp: channel_to_model_def Let_def split: option.splits if_splits)

lemma channel_to_model_dom:
  "channel_to_model wallet lnc = Inr item \<Longrightarrow> dom item = set MODEL_KEYS"
  by (auto simp: channel_to_model_def Let_def MODEL_KEYS_def split: option.splits if_splits)

subsection \<open>\<open>bytes.hex()\<close> is injective\<close>

lemma hexdigit_inj: "i < 16 \<Longrightarrow> j < 16 \<Longrightarrow> hexdigit i = hexdigit j \<Longrightarrow> i = j"
  using nth_eq_iff_index_eq[of "''0123456789abcdef''" i j] by (simp add: hexdigit_def)

lemma hex_byte_inj: "hex_byte a = hex_byte b \<Longrightarrow> a = b"
proof -
  assume h: "hex_byte a = hex_byte b"
  have la: "unat a < 256" and lb: "unat b < 256"
    using unsigned_less[of a, where 'a=nat] unsigned_less[of b, where 'a=nat] by simp_all
  have d: "unat a div 16 < 16" "unat b div 16 < 16" using la lb by auto
  have m: "unat a mod 16 < 16" "unat b mod 16 < 16" by auto
  from h have "hexdigit (unat a div 16) = hexdigit (unat b div 16)"
    and "hexdigit (unat a mod 16) = hexdigit (unat b mod 16)"
    by (simp_all add: hex_byte_def)
  then have "unat a div 16 = unat b div 16" and "unat a mod 16 = unat b mod 16"
    using hexdigit_inj d m by blast+
  then have "unat a = unat b"
    by (metis div_mult_mod_eq)
  then show "a = b" by (simp add: word_unat_eq_iff)
qed

lemma bytes_hex_Cons: "bytes_hex (b # bs) = hex_byte b @ bytes_hex bs"
  by (simp add: bytes_hex_def)

lemma bytes_hex_inj: "bytes_hex xs = bytes_hex ys \<Longrightarrow> xs = ys"
proof (induction xs arbitrary: ys)
  case Nil
  then show ?case by (cases ys) (simp_all add: bytes_hex_def hex_byte_def)
next
  case (Cons x xs)
  show ?case
  proof (cases ys)
    case Nil
    with Cons.prems show ?thesis by (simp add: bytes_hex_def hex_byte_def)
  next
    case (Cons y ys')
    with Cons.prems have e: "hex_byte x @ bytes_hex xs = hex_byte y @ bytes_hex ys'"
      by (simp add: bytes_hex_Cons)
    have "length (hex_byte x) = length (hex_byte y)" by (simp add: hex_byte_def)
    with e have "hex_byte x = hex_byte y" and "bytes_hex xs = bytes_hex ys'" by simp_all
    then show ?thesis using Cons.IH hex_byte_inj Cons by blast
  qed
qed

subsection \<open>Sorting with a key that cannot fail\<close>

lemma sort_keys_total:
  "\<forall>x\<in>set xs. f x = Inr (g x) \<Longrightarrow> sort_keys f xs = Inr (map g xs)"
  by (induction xs) simp_all

lemma insort_key_fst_pair:
  "insort_key fst (g x, x) (map (\<lambda>y. (g y, y)) ys) = map (\<lambda>y. (g y, y)) (insort_key g x ys)"
  by (induction ys) simp_all

lemma sort_key_fst_pair:
  "sort_key fst (map (\<lambda>y. (g y, y)) xs) = map (\<lambda>y. (g y, y)) (sort_key g xs)"
  by (induction xs) (simp_all add: insort_key_fst_pair)

lemma py_sort_total:
  assumes "\<forall>x\<in>set xs. f x = Inr (g x)"
  shows "py_sort f xs = Inr (sort_key g xs)"
proof -
  have z: "zip (map g xs) xs = map (\<lambda>y. (g y, y)) xs"
    by (induction xs) simp_all
  show ?thesis
    using sort_keys_total[OF assms]
    by (simp add: py_sort_def z sort_key_fst_pair comp_def)
qed

subsection \<open>Rebuilding the list\<close>

lemma chan_sort_score_channel:
  "channel_to_model wallet lnc = Inr item \<Longrightarrow>
   chan_sort_score item = Inr (get_state lnc + (if is_backup lnc then 10 else 0))"
  by (simp add: chan_sort_score_def dict_getitem_def channel_to_model_state_code
      channel_to_model_is_backup)

lemma model_row_score: "model_row r \<Longrightarrow> chan_sort_score r = Inr (sort_score r)"
  by (auto simp: model_row_def sort_score_def dest: chan_sort_score_channel)

lemma model_row_channel: "channel_to_model wallet lnc = Inr item \<Longrightarrow> model_row item"
  by (auto simp: model_row_def)

lemma list_all2_model_rows:
  "list_all2 (\<lambda>lnc item. channel_to_model wallet lnc = Inr item) cs items \<Longrightarrow>
   \<forall>r\<in>set items. model_row r"
  by (induction rule: list_all2_induct) (auto intro: model_row_channel)

lemma init_model_loop_Some:
  "lnworker wallet = Some lnw \<Longrightarrow>
   \<exists>items. init_model_loop wallet cs acc = Inr (acc @ items) \<and>
     list_all2 (\<lambda>lnc item. channel_to_model wallet lnc = Inr item) cs items"
proof (induction cs arbitrary: acc)
  case Nil
  then show ?case by simp
next
  case (Cons c cs)
  from channel_to_model_Some[OF Cons.prems] obtain item
    where item: "channel_to_model wallet c = Inr item" by blast
  from Cons.IH[OF Cons.prems, of "acc @ [item]"] obtain items
    where "init_model_loop wallet cs (acc @ [item]) = Inr ((acc @ [item]) @ items)"
      and "list_all2 (\<lambda>lnc item. channel_to_model wallet lnc = Inr item) cs items"
    by blast
  then show ?case using item
    by (intro exI[of _ "item # items"]) simp
qed

lemma init_model_None:
  "lnworker wallet = None \<Longrightarrow>
   init_model wallet self =
     Inr (self, [LogDebug (Msg ''init_model''), LogWarning (Msg ''lnworker should be defined'')])"
  by (simp add: init_model_def)

lemma init_model_Some:
  assumes "lnworker wallet = Some lnw"
  shows "\<exists>items. list_all2 (\<lambda>lnc item. channel_to_model wallet lnc = Inr item)
            (get_channel_objects lnw) items \<and>
          init_model wallet self =
            Inr (self\<lparr>channels := Some (sort_key sort_score items)\<rparr>,
                 [LogDebug (Msg ''init_model''), BeginResetModel, EndResetModel,
                  BeginInsertRows 0 (int (length items) - 1), EndInsertRows, CountChanged])"
proof -
  from init_model_loop_Some[OF assms, of "get_channel_objects lnw" "[]"] obtain items
    where loop: "init_model_loop wallet (get_channel_objects lnw) [] = Inr items"
      and rel: "list_all2 (\<lambda>lnc item. channel_to_model wallet lnc = Inr item)
                  (get_channel_objects lnw) items"
    by auto
  have "\<forall>r\<in>set items. model_row r"
    using rel by (rule list_all2_model_rows)
  then have "\<forall>r\<in>set items. chan_sort_score r = Inr (sort_score r)"
    by (simp add: model_row_score)
  then have srt: "py_sort chan_sort_score items = Inr (sort_key sort_score items)"
    by (rule py_sort_total)
  show ?thesis
    using assms loop srt rel
    by (intro exI[of _ items]) (simp add: init_model_def clear_def)
qed

subsection \<open>The small wallet, evaluated\<close>

lemma lnworker_wallet_ab: "lnworker wallet_ab = Some lnw_ab"
  by (simp add: wallet_ab_def)

lemma lnworker_wallet_none: "lnworker wallet_none = None"
  by (simp add: wallet_none_def)

lemma channel_to_model_chan_a: "channel_to_model wallet_ab chan_a = Inr row_a"
  by (simp add: channel_to_model_def wallet_ab_def lnw_ab_def chan_a_def row_a_def
      bytes_hex_def hex_byte_def hexdigit_def Let_def)

lemma channel_to_model_chan_b: "channel_to_model wallet_ab chan_b = Inr row_b"
  by (simp add: channel_to_model_def wallet_ab_def lnw_ab_def chan_b_def row_b_def
      bytes_hex_def hex_byte_def hexdigit_def Let_def)

lemma chan_sort_score_row_a: "chan_sort_score row_a = Inr 3"
  by (simp add: chan_sort_score_def dict_getitem_def row_a_def)

lemma chan_sort_score_row_b: "chan_sort_score row_b = Inr 12"
  by (simp add: chan_sort_score_def dict_getitem_def row_b_def)

lemma init_model_wallet_ab:
  "init_model wallet_ab self =
     Inr (self\<lparr>channels := Some [row_a, row_b]\<rparr>,
          [LogDebug (Msg ''init_model''), BeginResetModel, EndResetModel,
           BeginInsertRows 0 1, EndInsertRows, CountChanged])"
  by (simp add: init_model_def lnworker_wallet_ab lnw_ab_def channel_to_model_chan_a
      channel_to_model_chan_b py_sort_def chan_sort_score_row_a chan_sort_score_row_b clear_def)

lemma init_wallet_ab:
  "init wallet_ab =
     Inr (self_ab, [LogDebug (Msg ''init_model''), BeginResetModel, EndResetModel,
                    BeginInsertRows 0 1, EndInsertRows, CountChanged])"
  by (simp add: init_def init_model_wallet_ab self_ab_def)

subsection \<open>Rows and Python values\<close>

lemma py_eq_str_iff: "py_eq_str v s \<longleftrightarrow> v = VStr s"
  by (cases v) auto

lemma py_index_nat: "n < length xs \<Longrightarrow> py_index xs (int n) = Inr n"
  by (simp add: py_index_def)

lemma map_add_same_dom: "dom m = dom n \<Longrightarrow> m ++ n = n"
proof
  fix k
  assume d: "dom m = dom n"
  show "(m ++ n) k = n k"
  proof (cases "n k")
    case None
    then have "k \<notin> dom m" using d by auto
    then show ?thesis using None by (simp add: map_add_def domIff)
  next
    case (Some v)
    then show ?thesis by (simp add: map_add_def)
  qed
qed

lemma model_row_dom: "model_row r \<Longrightarrow> dom r = set MODEL_KEYS"
  by (auto simp: model_row_def dest: channel_to_model_dom)

lemma model_row_has_cid: "model_row r \<Longrightarrow> r ''cid'' \<noteq> None"
  by (auto simp: model_row_def dest: channel_to_model_cid)

lemma model_row_state_code: "model_row r \<Longrightarrow> \<exists>n. r ''state_code'' = Some (VInt n)"
  by (auto simp: model_row_def dest: channel_to_model_state_code)

lemma model_row_map_add: "model_row r \<Longrightarrow> model_row item \<Longrightarrow> r ++ item = item"
  by (simp add: map_add_same_dom model_row_dom)

subsection \<open>Updating a row\<close>

lemma do_update_at:
  assumes "channels self = Some chans" and "n < length chans"
    and "channel_to_model wallet channel = Inr item"
  shows "do_update wallet self (int n) channel =
     Inr (self\<lparr>channels := Some (chans[n := chans ! n ++ item])\<rparr>,
          [LogDebug (Msg (''updating our channel '' @ short_id_for_GUI channel)),
           DataChanged (int n) (int n) ROLE_KEYS, NumOpenChannelsChanged])"
  using assms by (simp add: do_update_def py_index_nat)

lemma on_channel_updated_loop_found:
  assumes "\<forall>r\<in>set pre. r ''cid'' \<noteq> None \<and> r ''cid'' \<noteq> Some (VStr (bytes_hex (channel_id channel)))"
    and "c ''cid'' = Some (VStr (bytes_hex (channel_id channel)))"
  shows "on_channel_updated_loop wallet self (pre @ c # post) i channel =
     do_update wallet self (i + int (length pre)) channel"
  using assms
proof (induction pre arbitrary: i)
  case Nil
  then show ?case by (simp add: dict_getitem_def)
next
  case (Cons r pre)
  then obtain v where v: "r ''cid'' = Some v" "v \<noteq> VStr (bytes_hex (channel_id channel))"
    by auto
  have "on_channel_updated_loop wallet self ((r # pre) @ c # post) i channel =
        on_channel_updated_loop wallet self (pre @ c # post) (i + 1) channel"
    using v by (simp add: dict_getitem_def py_eq_str_iff)
  also have "\<dots> = do_update wallet self (i + 1 + int (length pre)) channel"
    using Cons by simp
  finally show ?case by (simp add: add.assoc)
qed

lemma on_channel_updated_loop_absent:
  "\<forall>r\<in>set cs. r ''cid'' \<noteq> None \<and> r ''cid'' \<noteq> Some (VStr (bytes_hex (channel_id channel))) \<Longrightarrow>
   on_channel_updated_loop wallet self cs i channel = Inr (self, [])"
proof (induction cs arbitrary: i)
  case Nil
  then show ?case by simp
next
  case (Cons r cs)
  then obtain v where v: "r ''cid'' = Some v" "v \<noteq> VStr (bytes_hex (channel_id channel))"
    by auto
  then show ?case using Cons by (simp add: dict_getitem_def py_eq_str_iff)
qed

lemma on_channel_updated_found:
  assumes "channels self = Some (pre @ c # post)"
    and "\<forall>r\<in>set pre. r ''cid'' \<noteq> None \<and> r ''cid'' \<noteq> Some (VStr (bytes_hex (channel_id channel)))"
    and "c ''cid'' = Some (VStr (bytes_hex (channel_id channel)))"
    and "channel_to_model wallet channel = Inr item"
  shows "on_channel_updated wallet self channel =
     Inr (self\<lparr>channels := Some (pre @ (c ++ item) # post)\<rparr>,
          [LogDebug (Msg (''updating our channel '' @ short_id_for_GUI channel)),
           DataChanged (int (length pre)) (int (length pre)) ROLE_KEYS,
           NumOpenChannelsChanged])"
proof -
  have "on_channel_updated wallet self channel =
        do_update wallet self (int (length pre)) channel"
    using assms(1,2,3)
      on_channel_updated_loop_found[where pre=pre and c=c and post=post and i=0
        and channel=channel and wallet=wallet and self=self]
    by (simp add: on_channel_updated_def)
  then show ?thesis
    using do_update_at[OF assms(1) _ assms(4), of "length pre"] by simp
qed

lemma on_channel_updated_absent:
  assumes "channels self = Some chans"
    and "\<forall>r\<in>set chans. r ''cid'' \<noteq> None \<and> r ''cid'' \<noteq> Some (VStr (bytes_hex (channel_id channel)))"
  shows "on_channel_updated wallet self channel = Inr (self, [])"
  using assms by (simp add: on_channel_updated_def on_channel_updated_loop_absent)

subsection \<open>Inserting a row\<close>

lemma new_channel_loop_found:
  assumes "find (\<lambda>c. cid = bytes_hex (channel_id c)) cs = Some channel"
    and "channel_to_model wallet channel = Inr item"
    and "channels self = Some chans"
  shows "new_channel_loop wallet self cs cid =
     Inr (self\<lparr>channels := Some (item # chans)\<rparr>,
          [LogDebug (MsgItem item), BeginInsertRows 0 0, EndInsertRows, CountChanged])"
  using assms by (induction cs) (auto split: if_splits)

lemma new_channel_loop_absent:
  "find (\<lambda>c. cid = bytes_hex (channel_id c)) cs = None \<Longrightarrow>
   new_channel_loop wallet self cs cid = Inr (self, [])"
  by (induction cs) (auto split: if_splits)

lemma new_channel_found:
  assumes "lnworker wallet = Some lnw"
    and "find (\<lambda>c. cid = bytes_hex (channel_id c)) (lnchannels lnw) = Some channel"
    and "channel_to_model wallet channel = Inr item"
    and "channels self = Some chans"
  shows "new_channel wallet self cid =
     Inr (self\<lparr>channels := Some (item # chans)\<rparr>,
          [LogDebug (Msg (''new channel with cid '' @ cid)), LogDebug (MsgItem item),
           BeginInsertRows 0 0, EndInsertRows, CountChanged])"
  using assms(1) new_channel_loop_found[OF assms(2,3,4)] by (simp add: new_channel_def)

lemma new_channel_absent:
  assumes "lnworker wallet = Some lnw"
    and "find (\<lambda>c. cid = bytes_hex (channel_id c)) (lnchannels lnw) = None"
  shows "new_channel wallet self cid =
     Inr (self, [LogDebug (Msg (''new channel with cid '' @ cid))])"
  using assms(1) new_channel_loop_absent[OF assms(2)] by (simp add: new_channel_def)

subsection \<open>Removing a row\<close>

lemma remove_channel_loop_found:
  assumes "\<forall>r\<in>set pre. r ''cid'' \<noteq> None \<and> r ''cid'' \<noteq> Some (VStr cid)"
    and "c ''cid'' = Some (VStr cid)"
  shows "remove_channel_loop self chans (pre @ c # post) i cid =
     Inr (self\<lparr>channels := Some (remove1 c chans)\<rparr>,
          [LogDebug (Msg cid), BeginRemoveRows (i + int (length pre)) (i + int (length pre)),
           EndRemoveRows, CountChanged])"
  using assms
proof (induction pre arbitrary: i)
  case Nil
  then show ?case by (simp add: dict_getitem_def)
next
  case (Cons r pre)
  then obtain v where v: "r ''cid'' = Some v" "v \<noteq> VStr cid" by auto
  have "remove_channel_loop self chans ((r # pre) @ c # post) i cid =
        remove_channel_loop self chans (pre @ c # post) (i + 1) cid"
    using v by (simp add: dict_getitem_def py_eq_str_iff)
  then show ?case using Cons by (simp add: add.assoc)
qed

lemma remove_channel_loop_absent:
  "\<forall>r\<in>set cs. r ''cid'' \<noteq> None \<and> r ''cid'' \<noteq> Some (VStr cid) \<Longrightarrow>
   remove_channel_loop self chans cs i cid = Inr (self, [])"
proof (induction cs arbitrary: i)
  case Nil
  then show ?case by simp
next
  case (Cons r cs)
  then obtain v where v: "r ''cid'' = Some v" "v \<noteq> VStr cid" by auto
  then show ?case using Cons by (simp add: dict_getitem_def py_eq_str_iff)
qed

lemma remove_channel_found:
  assumes "channels self = Some (pre @ c # post)"
    and "\<forall>r\<in>set pre. r ''cid'' \<noteq> None \<and> r ''cid'' \<noteq> Some (VStr cid)"
    and "c ''cid'' = Some (VStr cid)"
  shows "remove_channel self cid =
     Inr (self\<lparr>channels := Some (pre @ post)\<rparr>,
          [LogDebug (Msg (''remove channel with cid '' @ cid)), LogDebug (Msg cid),
           BeginRemoveRows (int (length pre)) (int (length pre)), EndRemoveRows,
           CountChanged])"
proof -
  have "c \<notin> set pre" using assms(2,3) by auto
  then have "remove1 c (pre @ c # post) = pre @ post"
    by (simp add: remove1_append)
  then show ?thesis
    using assms
      remove_channel_loop_found[where pre=pre and c=c and post=post and i=0 and cid=cid
        and self=self and chans="pre @ c # post"]
    by (simp add: remove_channel_def)
qed

lemma remove_channel_absent:
  assumes "channels self = Some chans"
    and "\<forall>r\<in>set chans. r ''cid'' \<noteq> None \<and> r ''cid'' \<noteq> Some (VStr cid)"
  shows "remove_channel self cid =
     Inr (self, [LogDebug (Msg (''remove channel with cid '' @ cid))])"
  using assms by (simp add: remove_channel_def remove_channel_loop_absent)

subsection \<open>More on the small wallet\<close>

lemma model_row_a: "model_row row_a"
  using channel_to_model_chan_a by (rule model_row_channel)

lemma model_row_b: "model_row row_b"
  using channel_to_model_chan_b by (rule model_row_channel)

lemma model_rows_self_ab: "model_rows self_ab"
  by (simp add: model_rows_def self_ab_def model_row_a model_row_b)

lemma channels_self_ab: "channels self_ab = Some [row_a, row_b]"
  by (simp add: self_ab_def)

lemma row_a_cid: "row_a ''cid'' = Some (VStr ''ab'')"
  by (simp add: row_a_def)

lemma row_b_cid: "row_b ''cid'' = Some (VStr ''0c'')"
  by (simp add: row_b_def)

lemma bytes_hex_chan_a: "bytes_hex (channel_id chan_a) = ''ab''"
  by (simp add: chan_a_def bytes_hex_def hex_byte_def hexdigit_def)

lemma bytes_hex_chan_b: "bytes_hex (channel_id chan_b) = ''0c''"
  by (simp add: chan_b_def bytes_hex_def hex_byte_def hexdigit_def)

lemma lnchannels_lnw_ab: "lnchannels lnw_ab = [chan_a]"
  by (simp add: lnw_ab_def)

subsection \<open>Counting open channels\<close>

lemma numOpenChannels_sum_model:
  "\<forall>r\<in>set chans. \<exists>n. r ''state_code'' = Some (VInt n) \<Longrightarrow>
   numOpenChannels_sum OPEN chans =
     Inr (int (length (filter (\<lambda>x. x ''state_code'' = Some (VInt OPEN)) chans)))"
proof (induction chans)
  case Nil
  then show ?case by simp
next
  case (Cons r chans)
  then obtain n where n: "r ''state_code'' = Some (VInt n)" by auto
  then show ?case using Cons by (simp add: dict_getitem_def)
qed

subsection \<open>Every row of a reachable list is a model row\<close>

lemma model_rows_init_model:
  assumes "model_rows self" and "init_model wallet self = Inr (self', sigs)"
  shows "model_rows self'"
proof (cases "lnworker wallet")
  case None
  then show ?thesis using assms by (simp add: init_model_None)
next
  case (Some lnw)
  from init_model_Some[OF Some, of self] obtain items
    where rel: "list_all2 (\<lambda>lnc item. channel_to_model wallet lnc = Inr item)
                  (get_channel_objects lnw) items"
      and res: "init_model wallet self =
            Inr (self\<lparr>channels := Some (sort_key sort_score items)\<rparr>,
                 [LogDebug (Msg ''init_model''), BeginResetModel, EndResetModel,
                  BeginInsertRows 0 (int (length items) - 1), EndInsertRows, CountChanged])"
    by blast
  have "\<forall>r\<in>set items. model_row r" using rel by (rule list_all2_model_rows)
  then show ?thesis using res assms(2) by (auto simp: model_rows_def list_all_iff)
qed

lemma model_rows_on_channel_updated:
  assumes "model_rows self" and "on_channel_updated wallet self channel = Inr (self', sigs)"
  shows "model_rows self'"
proof (cases "channels self")
  case None
  then show ?thesis using assms(2) by (simp add: on_channel_updated_def)
next
  case (Some chans)
  have rows: "\<forall>r\<in>set chans. model_row r"
    using assms(1) Some by (simp add: model_rows_def list_all_iff)
  let ?P = "\<lambda>r. r ''cid'' = Some (VStr (bytes_hex (channel_id channel)))"
  show ?thesis
  proof (cases "\<exists>r\<in>set chans. ?P r")
    case True
    then obtain pre c post where sp: "chans = pre @ c # post" "?P c" "\<forall>r\<in>set pre. \<not> ?P r"
      using split_list_first_prop[of chans ?P] by blast
    have pre: "\<forall>r\<in>set pre. r ''cid'' \<noteq> None \<and> \<not> ?P r"
      using rows sp by (simp add: model_row_has_cid)
    have ch: "channels self = Some (pre @ c # post)" using Some sp by simp
    show ?thesis
    proof (cases "channel_to_model wallet channel")
      case (Inl e)
      have "on_channel_updated wallet self channel =
            do_update wallet self (int (length pre)) channel"
        using ch pre sp(2)
          on_channel_updated_loop_found[where pre=pre and c=c and post=post and i=0
            and channel=channel and wallet=wallet and self=self]
        by (simp add: on_channel_updated_def)
      then show ?thesis using assms(2) Inl ch
        by (simp add: do_update_def py_index_nat)
    next
      case (Inr item)
      have "c ++ item = item"
        using rows sp(1) Inr by (simp add: model_row_map_add model_row_channel)
      then show ?thesis
        using on_channel_updated_found[OF ch pre sp(2) Inr] assms(2) rows sp(1)
          model_row_channel[OF Inr]
        by (auto simp: model_rows_def list_all_iff)
    qed
  next
    case False
    then have "\<forall>r\<in>set chans. r ''cid'' \<noteq> None \<and> \<not> ?P r"
      using rows by (simp add: model_row_has_cid)
    then show ?thesis
      using on_channel_updated_absent[OF Some] assms by simp
  qed
qed

lemma new_channel_loop_cases:
  assumes "new_channel_loop wallet self cs cid = Inr (self', sigs)"
  shows "self' = self \<or>
     (\<exists>channel item chans. channel \<in> set cs \<and> cid = bytes_hex (channel_id channel) \<and>
        channel_to_model wallet channel = Inr item \<and> channels self = Some chans \<and>
        self' = self\<lparr>channels := Some (item # chans)\<rparr>)"
  using assms
  by (induction cs) (auto split: if_splits sum.splits option.splits)

lemma new_channel_cases:
  assumes "new_channel wallet self cid = Inr (self', sigs)"
  shows "self' = self \<or>
     (\<exists>channel item chans. cid = bytes_hex (channel_id channel) \<and>
        channel_to_model wallet channel = Inr item \<and> channels self = Some chans \<and>
        self' = self\<lparr>channels := Some (item # chans)\<rparr>)"
proof -
  from assms obtain lnw sigs' where "lnworker wallet = Some lnw"
    and "new_channel_loop wallet self (lnchannels lnw) cid = Inr (self', sigs')"
    by (auto simp: new_channel_def split: option.splits sum.splits)
  then show ?thesis using new_channel_loop_cases by blast
qed

lemma model_rows_new_channel:
  assumes "model_rows self" and "new_channel wallet self cid = Inr (self', sigs)"
  shows "model_rows self'"
  using new_channel_cases[OF assms(2)] assms(1)
  by (auto simp: model_rows_def intro: model_row_channel)

lemma remove_channel_cases:
  assumes "\<forall>r\<in>set chans. r ''cid'' \<noteq> None" and "channels self = Some chans"
    and "remove_channel self cid = Inr (self', sigs)"
  shows "self' = self \<or>
     (\<exists>pre c post. chans = pre @ c # post \<and> self' = self\<lparr>channels := Some (pre @ post)\<rparr>)"
proof (cases "\<exists>r\<in>set chans. r ''cid'' = Some (VStr cid)")
  case True
  then obtain pre c post where sp: "chans = pre @ c # post" "c ''cid'' = Some (VStr cid)"
      "\<forall>r\<in>set pre. r ''cid'' \<noteq> Some (VStr cid)"
    using split_list_first_prop[of chans "\<lambda>r. r ''cid'' = Some (VStr cid)"] by blast
  have pre: "\<forall>r\<in>set pre. r ''cid'' \<noteq> None \<and> r ''cid'' \<noteq> Some (VStr cid)"
    using assms(1) sp by simp
  have ch: "channels self = Some (pre @ c # post)" using assms(2) sp by simp
  show ?thesis using remove_channel_found[OF ch pre sp(2)] assms(3) sp(1) by auto
next
  case False
  then have "\<forall>r\<in>set chans. r ''cid'' \<noteq> None \<and> r ''cid'' \<noteq> Some (VStr cid)"
    using assms(1) by simp
  then show ?thesis using remove_channel_absent[OF assms(2)] assms(3) by simp
qed

lemma model_rows_remove_channel:
  assumes "model_rows self" and "remove_channel self cid = Inr (self', sigs)"
  shows "model_rows self'"
proof (cases "channels self")
  case None
  then show ?thesis using assms(2) by (simp add: remove_channel_def)
next
  case (Some chans)
  have rows: "\<forall>r\<in>set chans. model_row r"
    using assms(1) Some by (simp add: model_rows_def list_all_iff)
  then have "\<forall>r\<in>set chans. r ''cid'' \<noteq> None" by (simp add: model_row_has_cid)
  from remove_channel_cases[OF this Some assms(2)] show ?thesis
    using assms(1) rows by (auto simp: model_rows_def list_all_iff)
qed

lemma filterModel_is_backup:
  "filterModel ''is_backup'' match = Inr \<lparr>filterRole = 273, filterValue = match\<rparr>"
  by (simp add: filterModel_def ROLE_RMAP_def ROLE_NAMES_def ROLE_KEYS_def UserRole_def
      upt_rec)

lemma model_rows_apply_op:
  assumes "model_rows self" and "apply_op wallet operation self = Inr (self', sigs)"
  shows "model_rows self'"
proof (cases operation)
  case Rebuild
  then show ?thesis using assms model_rows_init_model by (simp add: apply_op_def)
next
  case (ApplyUpdate channel)
  then show ?thesis using assms model_rows_on_channel_updated by (simp add: apply_op_def)
next
  case (Insert cid)
  then show ?thesis using assms model_rows_new_channel by (simp add: apply_op_def)
next
  case (Remove cid)
  then show ?thesis using assms model_rows_remove_channel by (simp add: apply_op_def)
next
  case FilterBackups
  then show ?thesis using assms
    by (auto simp: apply_op_def filterModelBackups_def filterModel_is_backup model_rows_def)
next
  case FilterNoBackups
  then show ?thesis using assms
    by (auto simp: apply_op_def filterModelNoBackups_def filterModel_is_backup model_rows_def)
qed

lemma model_rows_run:
  "model_rows self \<Longrightarrow> run ops self = Inr self' \<Longrightarrow> model_rows self'"
proof (induction ops arbitrary: self)
  case Nil
  then show ?case by simp
next
  case (Cons step ops)
  obtain wallet operation where step: "step = (wallet, operation)" by (cases step)
  from Cons.prems(2) step obtain mid sigs
    where a: "apply_op wallet operation self = Inr (mid, sigs)" and r: "run ops mid = Inr self'"
    by (auto split: sum.splits)
  from model_rows_apply_op[OF Cons.prems(1) a] have "model_rows mid" .
  then show ?case using r by (rule Cons.IH)
qed

lemma model_rows_init: "init wallet = Inr (self, sigs) \<Longrightarrow> model_rows self"
  using model_rows_init_model[of "\<lparr>channels = None, fm_backups = None, fm_nobackups = None\<rparr>"
      wallet self sigs]
  by (simp add: init_def model_rows_def)

lemma run_insert_ab:
  "run [(wallet_ab, Insert ''ab'')] self_ab = Inr (self_ab\<lparr>channels := Some [row_a, row_a, row_b]\<rparr>)"
  using new_channel_found[OF lnworker_wallet_ab _ channel_to_model_chan_a channels_self_ab,
      of "''ab''"]
  by (simp add: apply_op_def lnchannels_lnw_ab bytes_hex_chan_a)

subsection \<open>Uniqueness of the channel ids\<close>

lemma list_all2_row_cids:
  "list_all2 (\<lambda>lnc item. channel_to_model wallet lnc = Inr item) cs items \<Longrightarrow>
   row_cids items = map (\<lambda>c. Some (VStr (bytes_hex (channel_id c)))) cs"
  by (induction rule: list_all2_induct) (simp_all add: row_cids_def channel_to_model_cid)

lemma distinct_hex_cids:
  "distinct (map channel_id cs) \<Longrightarrow>
   distinct (map (\<lambda>c. Some (VStr (bytes_hex (channel_id c)))) cs)"
  by (induction cs) (auto dest: bytes_hex_inj)

lemma distinct_row_cids_sort_key:
  "distinct (row_cids (sort_key f items)) \<longleftrightarrow> distinct (row_cids items)"
proof -
  have "mset (row_cids (sort_key f items)) = mset (row_cids items)"
    by (simp add: row_cids_def)
  then show ?thesis by (rule mset_eq_imp_distinct_iff)
qed

lemma unique_cids_init_model:
  assumes "unique_cids self" and "admissible wallet Rebuild self"
    and "init_model wallet self = Inr (self', sigs)"
  shows "unique_cids self'"
proof (cases "lnworker wallet")
  case None
  then show ?thesis using assms by (simp add: init_model_None)
next
  case (Some lnw)
  from init_model_Some[OF Some, of self] obtain items
    where rel: "list_all2 (\<lambda>lnc item. channel_to_model wallet lnc = Inr item)
                  (get_channel_objects lnw) items"
      and res: "init_model wallet self =
            Inr (self\<lparr>channels := Some (sort_key sort_score items)\<rparr>,
                 [LogDebug (Msg ''init_model''), BeginResetModel, EndResetModel,
                  BeginInsertRows 0 (int (length items) - 1), EndInsertRows, CountChanged])"
    by blast
  have "distinct (map channel_id (get_channel_objects lnw))"
    using assms(2) Some by (simp add: admissible_def)
  then have "distinct (row_cids items)"
    using list_all2_row_cids[OF rel] by (simp add: distinct_hex_cids)
  then show ?thesis
    using res assms(3) by (auto simp: unique_cids_def distinct_row_cids_sort_key)
qed

lemma unique_cids_on_channel_updated:
  assumes "model_rows self" and "unique_cids self"
    and "on_channel_updated wallet self channel = Inr (self', sigs)"
  shows "unique_cids self'"
proof (cases "channels self")
  case None
  then show ?thesis using assms(3) by (simp add: on_channel_updated_def)
next
  case (Some chans)
  have rows: "\<forall>r\<in>set chans. model_row r"
    using assms(1) Some by (simp add: model_rows_def list_all_iff)
  let ?P = "\<lambda>r. r ''cid'' = Some (VStr (bytes_hex (channel_id channel)))"
  show ?thesis
  proof (cases "\<exists>r\<in>set chans. ?P r")
    case True
    then obtain pre c post where sp: "chans = pre @ c # post" "?P c" "\<forall>r\<in>set pre. \<not> ?P r"
      using split_list_first_prop[of chans ?P] by blast
    have pre: "\<forall>r\<in>set pre. r ''cid'' \<noteq> None \<and> \<not> ?P r"
      using rows sp by (simp add: model_row_has_cid)
    have ch: "channels self = Some (pre @ c # post)" using Some sp by simp
    show ?thesis
    proof (cases "channel_to_model wallet channel")
      case (Inl e)
      have "on_channel_updated wallet self channel =
            do_update wallet self (int (length pre)) channel"
        using ch pre sp(2)
          on_channel_updated_loop_found[where pre=pre and c=c and post=post and i=0
            and channel=channel and wallet=wallet and self=self]
        by (simp add: on_channel_updated_def)
      then show ?thesis using assms(3) Inl ch
        by (simp add: do_update_def py_index_nat)
    next
      case (Inr item)
      have "(c ++ item) ''cid'' = c ''cid''"
        using sp(2) channel_to_model_cid[OF Inr] by (simp add: map_add_def)
      then have "row_cids (pre @ (c ++ item) # post) = row_cids (pre @ c # post)"
        by (simp add: row_cids_def)
      then show ?thesis
        using on_channel_updated_found[OF ch pre sp(2) Inr] assms(2,3) ch
        by (auto simp: unique_cids_def)
    qed
  next
    case False
    then have "\<forall>r\<in>set chans. r ''cid'' \<noteq> None \<and> \<not> ?P r"
      using rows by (simp add: model_row_has_cid)
    then show ?thesis
      using on_channel_updated_absent[OF Some] assms by simp
  qed
qed

lemma unique_cids_new_channel:
  assumes "unique_cids self" and "admissible wallet (Insert cid) self"
    and "new_channel wallet self cid = Inr (self', sigs)"
  shows "unique_cids self'"
proof -
  from new_channel_cases[OF assms(3)] show ?thesis
  proof
    assume "self' = self"
    then show ?thesis using assms(1) by simp
  next
    assume "\<exists>channel item chans. cid = bytes_hex (channel_id channel) \<and>
        channel_to_model wallet channel = Inr item \<and> channels self = Some chans \<and>
        self' = self\<lparr>channels := Some (item # chans)\<rparr>"
    then obtain channel item chans where h: "cid = bytes_hex (channel_id channel)"
      "channel_to_model wallet channel = Inr item" "channels self = Some chans"
      "self' = self\<lparr>channels := Some (item # chans)\<rparr>" by blast
    have "item ''cid'' = Some (VStr cid)"
      using channel_to_model_cid[OF h(2)] h(1) by simp
    moreover have "Some (VStr cid) \<notin> set (row_cids chans)"
      using assms(2) h(3) by (simp add: admissible_def)
    moreover have "distinct (row_cids chans)"
      using assms(1) h(3) by (simp add: unique_cids_def)
    ultimately show ?thesis using h(4) by (simp add: unique_cids_def row_cids_def)
  qed
qed

lemma unique_cids_remove_channel:
  assumes "model_rows self" and "unique_cids self"
    and "remove_channel self cid = Inr (self', sigs)"
  shows "unique_cids self'"
proof (cases "channels self")
  case None
  then show ?thesis using assms(3) by (simp add: remove_channel_def)
next
  case (Some chans)
  have "\<forall>r\<in>set chans. r ''cid'' \<noteq> None"
    using assms(1) Some by (simp add: model_rows_def list_all_iff model_row_has_cid)
  from remove_channel_cases[OF this Some assms(3)] show ?thesis
    using assms(2) Some by (auto simp: unique_cids_def row_cids_def)
qed

lemma unique_cids_apply_op:
  assumes "model_rows self" and "unique_cids self" and "admissible wallet operation self"
    and "apply_op wallet operation self = Inr (self', sigs)"
  shows "unique_cids self'"
proof (cases operation)
  case Rebuild
  then show ?thesis using assms unique_cids_init_model by (simp add: apply_op_def)
next
  case (ApplyUpdate channel)
  then show ?thesis using assms unique_cids_on_channel_updated by (simp add: apply_op_def)
next
  case (Insert cid)
  then show ?thesis using assms unique_cids_new_channel by (simp add: apply_op_def)
next
  case (Remove cid)
  then show ?thesis using assms unique_cids_remove_channel by (simp add: apply_op_def)
next
  case FilterBackups
  then show ?thesis using assms
    by (auto simp: apply_op_def filterModelBackups_def filterModel_is_backup unique_cids_def)
next
  case FilterNoBackups
  then show ?thesis using assms
    by (auto simp: apply_op_def filterModelNoBackups_def filterModel_is_backup unique_cids_def)
qed

lemma unique_cids_run:
  "model_rows self \<Longrightarrow> unique_cids self \<Longrightarrow> admissible_run ops self \<Longrightarrow>
   run ops self = Inr self' \<Longrightarrow> unique_cids self'"
proof (induction ops arbitrary: self)
  case Nil
  then show ?case by simp
next
  case (Cons step ops)
  obtain wallet operation where step: "step = (wallet, operation)" by (cases step)
  from Cons.prems(4) step obtain mid sigs
    where a: "apply_op wallet operation self = Inr (mid, sigs)" and r: "run ops mid = Inr self'"
    by (auto split: sum.splits)
  have adm: "admissible wallet operation self" and admr: "admissible_run ops mid"
    using Cons.prems(3) step a by simp_all
  have "model_rows mid" using model_rows_apply_op[OF Cons.prems(1) a] .
  moreover have "unique_cids mid" using unique_cids_apply_op[OF Cons.prems(1,2) adm a] .
  ultimately show ?case using admr r by (rule Cons.IH)
qed

lemma unique_cids_self_ab: "unique_cids self_ab"
  by (simp add: unique_cids_def channels_self_ab row_cids_def row_a_cid row_b_cid)

lemma run_remove_insert_ab:
  "run [(wallet_ab, Remove ''ab''), (wallet_ab, Insert ''ab'')] self_ab = Inr self_ab"
proof -
  have ch: "channels self_ab = Some ([] @ row_a # [row_b])" by (simp add: channels_self_ab)
  have rm: "remove_channel self_ab ''ab'' =
      Inr (self_ab\<lparr>channels := Some [row_b]\<rparr>,
           [LogDebug (Msg (''remove channel with cid '' @ ''ab'')), LogDebug (Msg ''ab''),
            BeginRemoveRows 0 0, EndRemoveRows, CountChanged])"
    using remove_channel_found[OF ch _ row_a_cid] by simp
  have ins: "new_channel wallet_ab (self_ab\<lparr>channels := Some [row_b]\<rparr>) ''ab'' =
      Inr (self_ab\<lparr>channels := Some [row_b]\<rparr>\<lparr>channels := Some [row_a, row_b]\<rparr>,
           [LogDebug (Msg (''new channel with cid '' @ ''ab'')), LogDebug (MsgItem row_a),
            BeginInsertRows 0 0, EndInsertRows, CountChanged])"
    using new_channel_found[OF lnworker_wallet_ab _ channel_to_model_chan_a,
        of "''ab''" "self_ab\<lparr>channels := Some [row_b]\<rparr>" "[row_b]"]
    by (simp add: lnchannels_lnw_ab bytes_hex_chan_a)
  have "self_ab\<lparr>channels := Some [row_b]\<rparr>\<lparr>channels := Some [row_a, row_b]\<rparr> = self_ab"
    by (simp add: self_ab_def)
  then show ?thesis using rm ins by (simp add: apply_op_def)
qed

lemma admissible_run_remove_insert_ab:
  "admissible_run [(wallet_ab, Remove ''ab''), (wallet_ab, Insert ''ab'')] self_ab"
proof -
  have ch: "channels self_ab = Some ([] @ row_a # [row_b])" by (simp add: channels_self_ab)
  have rm: "remove_channel self_ab ''ab'' =
      Inr (self_ab\<lparr>channels := Some [row_b]\<rparr>,
           [LogDebug (Msg (''remove channel with cid '' @ ''ab'')), LogDebug (Msg ''ab''),
            BeginRemoveRows 0 0, EndRemoveRows, CountChanged])"
    using remove_channel_found[OF ch _ row_a_cid] by simp
  show ?thesis
    using rm
    by (simp add: apply_op_def admissible_def row_cids_def row_b_cid
        split: sum.splits prod.splits)
qed

subsection \<open>Operations that return\<close>

lemma init_model_total: "\<exists>res. init_model wallet self = Inr res"
proof (cases "lnworker wallet")
  case None
  then show ?thesis by (simp add: init_model_None)
next
  case (Some lnw)
  from init_model_Some[OF Some, of self] show ?thesis by blast
qed

lemma on_channel_updated_total:
  assumes "lnworker wallet = Some lnw" and "model_rows self" and "channels self = Some chans"
  shows "\<exists>res. on_channel_updated wallet self channel = Inr res"
proof -
  have rows: "\<forall>r\<in>set chans. r ''cid'' \<noteq> None"
    using assms(2,3) by (simp add: model_rows_def list_all_iff model_row_has_cid)
  from channel_to_model_Some[OF assms(1)] obtain item
    where item: "channel_to_model wallet channel = Inr item" by blast
  let ?P = "\<lambda>r. r ''cid'' = Some (VStr (bytes_hex (channel_id channel)))"
  show ?thesis
  proof (cases "\<exists>r\<in>set chans. ?P r")
    case True
    then obtain pre c post where sp: "chans = pre @ c # post" "?P c" "\<forall>r\<in>set pre. \<not> ?P r"
      using split_list_first_prop[of chans ?P] by blast
    have pre: "\<forall>r\<in>set pre. r ''cid'' \<noteq> None \<and> \<not> ?P r" using rows sp by simp
    have ch: "channels self = Some (pre @ c # post)" using assms(3) sp by simp
    show ?thesis using on_channel_updated_found[OF ch pre sp(2) item] by blast
  next
    case False
    then have "\<forall>r\<in>set chans. r ''cid'' \<noteq> None \<and> \<not> ?P r" using rows by simp
    then show ?thesis using on_channel_updated_absent[OF assms(3)] by blast
  qed
qed

lemma new_channel_total:
  assumes "lnworker wallet = Some lnw" and "channels self = Some chans"
  shows "\<exists>res. new_channel wallet self cid = Inr res"
proof (cases "find (\<lambda>c. cid = bytes_hex (channel_id c)) (lnchannels lnw)")
  case None
  then show ?thesis using new_channel_absent[OF assms(1)] by blast
next
  case (Some channel)
  from channel_to_model_Some[OF assms(1)] obtain item
    where "channel_to_model wallet channel = Inr item" by blast
  then show ?thesis using new_channel_found[OF assms(1) Some _ assms(2)] by blast
qed

lemma remove_channel_total:
  assumes "model_rows self" and "channels self = Some chans"
  shows "\<exists>res. remove_channel self cid = Inr res"
proof -
  have rows: "\<forall>r\<in>set chans. r ''cid'' \<noteq> None"
    using assms by (simp add: model_rows_def list_all_iff model_row_has_cid)
  let ?P = "\<lambda>r. r ''cid'' = Some (VStr cid)"
  show ?thesis
  proof (cases "\<exists>r\<in>set chans. ?P r")
    case True
    then obtain pre c post where sp: "chans = pre @ c # post" "?P c" "\<forall>r\<in>set pre. \<not> ?P r"
      using split_list_first_prop[of chans ?P] by blast
    have pre: "\<forall>r\<in>set pre. r ''cid'' \<noteq> None \<and> \<not> ?P r" using rows sp by simp
    have ch: "channels self = Some (pre @ c # post)" using assms(2) sp by simp
    show ?thesis using remove_channel_found[OF ch pre sp(2)] by blast
  next
    case False
    then have "\<forall>r\<in>set chans. r ''cid'' \<noteq> None \<and> \<not> ?P r" using rows by simp
    then show ?thesis using remove_channel_absent[OF assms(2)] by blast
  qed
qed

lemma py_getitem_nat: "k < length xs \<Longrightarrow> py_getitem xs (int k) = Inr (xs ! k)"
  by (simp add: py_getitem_def py_index_def)

lemma data_model_key:
  assumes "model_rows self" and "channels self = Some chans"
    and "n < length chans" and "k < length ROLE_NAMES" and "ROLE_NAMES ! k \<in> set MODEL_KEYS"
  shows "\<exists>v. data self (int n) (UserRole + int k) = Inr v"
proof -
  have "model_row (chans ! n)"
    using assms(1,2,3) by (simp add: model_rows_def list_all_length)
  then have "ROLE_NAMES ! k \<in> dom (chans ! n)"
    using assms(5) by (simp add: model_row_dom)
  then obtain v where "(chans ! n) (ROLE_NAMES ! k) = Some v" by blast
  then show ?thesis
    using assms(2,3,4) by (simp add: data_def py_getitem_nat dict_getitem_def)
qed

lemma data_missing_key:
  assumes "model_rows self" and "channels self = Some chans"
    and "n < length chans" and "k < length ROLE_NAMES" and "ROLE_NAMES ! k \<notin> set MODEL_KEYS"
  shows "data self (int n) (UserRole + int k) = Inl KeyError"
proof -
  have "model_row (chans ! n)"
    using assms(1,2,3) by (simp add: model_rows_def list_all_length)
  then have "ROLE_NAMES ! k \<notin> dom (chans ! n)"
    using assms(5) by (simp add: model_row_dom)
  then have "(chans ! n) (ROLE_NAMES ! k) = None" by blast
  then show ?thesis
    using assms(2,3,4) by (simp add: data_def py_getitem_nat dict_getitem_def)
qed

lemma ROLE_RMAP_dom: "ROLE_RMAP role = None \<longleftrightarrow> role \<notin> set ROLE_NAMES"
proof -
  have "length ROLE_NAMES = length ROLE_KEYS" by (simp add: ROLE_KEYS_def)
  then have "dom ROLE_RMAP = set ROLE_NAMES"
    unfolding ROLE_RMAP_def by (rule dom_map_of_zip)
  then show ?thesis by (auto simp: domIff)
qed

lemma filterModel_declared:
  "role \<in> set ROLE_NAMES \<Longrightarrow> \<exists>fm. filterModel role match = Inr fm"
  using ROLE_RMAP_dom[of role] by (auto simp: filterModel_def split: option.splits)

lemma filterModel_undeclared:
  "role \<notin> set ROLE_NAMES \<Longrightarrow> filterModel role match = Inl AssertionError"
  using ROLE_RMAP_dom[of role] by (simp add: filterModel_def)

lemma rowCount_list: "channels self = Some chans \<Longrightarrow> rowCount self = Inr (int (length chans))"
  by (simp add: rowCount_def)

lemma roleNames_declared:
  "roleNames 259 = Some ''initiator''" "roleNames 263 = Some ''l_csv_delay''"
  "roleNames 264 = Some ''r_csv_delay''" "roleNames 265 = Some ''send_frozen''"
  "roleNames 266 = Some ''receive_frozen''" "roleNames 267 = Some ''type''"
  "roleNames 271 = Some ''funding_tx''"
  by (simp_all add: roleNames_def ROLE_MAP_def ROLE_KEYS_def ROLE_NAMES_def UserRole_def
      upt_rec)

lemma data_self_ab_missing:
  "data self_ab 0 259 = Inl KeyError" "data self_ab 0 263 = Inl KeyError"
  "data self_ab 0 264 = Inl KeyError" "data self_ab 0 265 = Inl KeyError"
  "data self_ab 0 266 = Inl KeyError" "data self_ab 0 267 = Inl KeyError"
  "data self_ab 0 271 = Inl KeyError"
  by (simp_all add: data_def channels_self_ab py_getitem_def py_index_def UserRole_def
      ROLE_NAMES_def dict_getitem_def row_a_def)

subsection \<open>The count of open channels when the list exists\<close>

lemma numOpenChannels_reachable_list:
  assumes "init wallet = Inr (self0, sigs)"
    and "run ops self0 = Inr self"
    and "channels self = Some chans"
  shows "numOpenChannels OPEN self =
     Inr (int (length (filter (\<lambda>x. x ''state_code'' = Some (VInt OPEN)) chans)))"
proof -
  have "model_rows self"
    using model_rows_init[OF assms(1)] assms(2) by (rule model_rows_run)
  then have "\<forall>r\<in>set chans. \<exists>n. r ''state_code'' = Some (VInt n)"
    using assms(3) by (simp add: model_rows_def list_all_iff model_row_state_code)
  then show ?thesis
    using assms(3) by (simp add: numOpenChannels_def numOpenChannels_sum_model)
qed

subsection \<open>The adapter of a wallet without a Lightning engine\<close>

lemma init_wallet_none:
  "init wallet_none =
     Inr (new_self, [LogDebug (Msg ''init_model''),
                     LogWarning (Msg ''lnworker should be defined'')])"
  by (simp add: init_def new_self_def init_model_None lnworker_wallet_none)

lemma channels_new_self: "channels new_self = None"
  by (simp add: new_self_def)

section \<open>The claims\<close>

text \<open>
  C1, on the code. \<open>roleNames\<close> declares the roles \<open>initiator\<close>, \<open>l_csv_delay\<close>,
  \<open>r_csv_delay\<close>, \<open>send_frozen\<close>, \<open>receive_frozen\<close>, \<open>type\<close> and \<open>funding_tx\<close>, and
  \<open>channel_to_model\<close> sets none of them: on the list that the constructor builds for
  the small wallet, \<open>data\<close> for row 0 and each of these roles raises \<open>KeyError\<close>.
\<close>

theorem data_declared_role_KeyError:
  "init wallet_ab = Inr (self_ab, [LogDebug (Msg ''init_model''), BeginResetModel,
      EndResetModel, BeginInsertRows 0 1, EndInsertRows, CountChanged]) \<and>
   roleNames 259 = Some ''initiator'' \<and> data self_ab 0 259 = Inl KeyError \<and>
   roleNames 263 = Some ''l_csv_delay'' \<and> data self_ab 0 263 = Inl KeyError \<and>
   roleNames 264 = Some ''r_csv_delay'' \<and> data self_ab 0 264 = Inl KeyError \<and>
   roleNames 265 = Some ''send_frozen'' \<and> data self_ab 0 265 = Inl KeyError \<and>
   roleNames 266 = Some ''receive_frozen'' \<and> data self_ab 0 266 = Inl KeyError \<and>
   roleNames 267 = Some ''type'' \<and> data self_ab 0 267 = Inl KeyError \<and>
   roleNames 271 = Some ''funding_tx'' \<and> data self_ab 0 271 = Inl KeyError"
  using init_wallet_ab roleNames_declared data_self_ab_missing by (intro conjI)

text \<open>
  C2, on the code. The constructor on a wallet without a Lightning engine returns, and
  \<open>init_model\<close> has left without assigning \<open>self.channels\<close>. On that object the row
  count, the \<open>count\<close> property, \<open>data\<close> and \<open>remove_channel\<close> raise
  \<open>AttributeError\<close>, and so does \<open>new_channel\<close>, which reads
  \<open>self.wallet.lnworker.channels\<close> without the test that \<open>init_model\<close> makes. On
  the list of the small wallet \<open>data\<close> raises \<open>KeyError\<close> for the declared role
  \<open>initiator\<close>.
\<close>

theorem operations_raise_without_lnworker:
  "init wallet_none =
     Inr (new_self, [LogDebug (Msg ''init_model''),
                     LogWarning (Msg ''lnworker should be defined'')]) \<and>
   rowCount new_self = Inl AttributeError \<and>
   count_property new_self = Inl AttributeError \<and>
   data new_self 0 256 = Inl AttributeError \<and>
   remove_channel new_self ''ab'' = Inl AttributeError \<and>
   new_channel wallet_none new_self ''ab'' = Inl AttributeError \<and>
   init wallet_ab = Inr (self_ab, [LogDebug (Msg ''init_model''), BeginResetModel,
      EndResetModel, BeginInsertRows 0 1, EndInsertRows, CountChanged]) \<and>
   roleNames 259 = Some ''initiator'' \<and> data self_ab 0 259 = Inl KeyError"
proof -
  have r: "rowCount new_self = Inl AttributeError"
    by (simp add: rowCount_def channels_new_self)
  have c: "count_property new_self = Inl AttributeError"
    by (simp add: count_property_def channels_new_self)
  have d: "data new_self 0 256 = Inl AttributeError"
    by (simp add: data_def channels_new_self)
  have m: "remove_channel new_self ''ab'' = Inl AttributeError"
    by (simp add: remove_channel_def channels_new_self)
  have n: "new_channel wallet_none new_self ''ab'' = Inl AttributeError"
    by (simp add: new_channel_def lnworker_wallet_none)
  show ?thesis
    using init_wallet_none r c d m n init_wallet_ab roleNames_declared(1)
      data_self_ab_missing(1)
    by (intro conjI)
qed

text \<open>
  C3, as stated, fails: \<open>new_channel\<close> never looks at the list. The constructor on the
  small wallet gives the list of \<open>row_a\<close> and \<open>row_b\<close>, whose ids differ; channel
  \<open>chan_a\<close> with id \<open>ab\<close> is in \<open>lnworker.channels\<close>; inserting \<open>ab\<close> puts a second
  row with that id in front.
\<close>

theorem new_channel_duplicates_cid:
  "init wallet_ab = Inr (self_ab, [LogDebug (Msg ''init_model''), BeginResetModel,
      EndResetModel, BeginInsertRows 0 1, EndInsertRows, CountChanged]) \<and>
   unique_cids self_ab \<and>
   lnchannels lnw_ab = [chan_a] \<and> bytes_hex (channel_id chan_a) = ''ab'' \<and>
   run [(wallet_ab, Insert ''ab'')] self_ab =
     Inr (self_ab\<lparr>channels := Some [row_a, row_a, row_b]\<rparr>) \<and>
   \<not> unique_cids (self_ab\<lparr>channels := Some [row_a, row_a, row_b]\<rparr>)"
proof -
  have "\<not> unique_cids (self_ab\<lparr>channels := Some [row_a, row_a, row_b]\<rparr>)"
    by (simp add: unique_cids_def row_cids_def)
  then show ?thesis
    using init_wallet_ab unique_cids_self_ab lnchannels_lnw_ab bytes_hex_chan_a run_insert_ab
    by (intro conjI)
qed

text \<open>
  C3, amended. Start from a list of model rows with pairwise distinct ids and run any
  sequence of operations in which every rebuild reads a collection with pairwise
  distinct channel ids and every insertion names an id that no row has at that moment.
  If the run ends without an exception, the ids of the rows are pairwise distinct.
\<close>

theorem unique_cids_preserved:
  assumes "model_rows self" and "unique_cids self"
    and "admissible_run ops self" and "run ops self = Inr self'"
  shows "unique_cids self'"
  using assms by (rule unique_cids_run)

theorem unique_cids_preserved_witness:
  "model_rows self_ab \<and> unique_cids self_ab \<and>
   admissible_run [(wallet_ab, Remove ''ab''), (wallet_ab, Insert ''ab'')] self_ab \<and>
   run [(wallet_ab, Remove ''ab''), (wallet_ab, Insert ''ab'')] self_ab = Inr self_ab \<and>
   unique_cids self_ab"
  using unique_cids_preserved[OF model_rows_self_ab unique_cids_self_ab
      admissible_run_remove_insert_ab run_remove_insert_ab]
    model_rows_self_ab admissible_run_remove_insert_ab run_remove_insert_ab
  by (intro conjI)

text \<open>
  C4, as stated, fails: the key of the sort is the sum \<open>state_code + 10\<close> for a backup
  and \<open>state_code\<close> otherwise, not the pair. On the small wallet the open channel
  (state code 3) comes before the backup (state code 2).
\<close>

theorem init_model_not_sorted_by_pair:
  "rows_of (init_model wallet_ab new_self) = [row_a, row_b] \<and>
   row_a ''state_code'' = Some (VInt 3) \<and> row_a ''is_backup'' = Some (VBool False) \<and>
   row_b ''state_code'' = Some (VInt 2) \<and> row_b ''is_backup'' = Some (VBool True) \<and>
   \<not> spec_sorted (rows_of (init_model wallet_ab new_self))"
proof -
  have r: "rows_of (init_model wallet_ab new_self) = [row_a, row_b]"
    by (simp add: rows_of_def init_model_wallet_ab)
  have a: "row_a ''state_code'' = Some (VInt 3)" "row_a ''is_backup'' = Some (VBool False)"
    by (simp_all add: row_a_def)
  have b: "row_b ''state_code'' = Some (VInt 2)" "row_b ''is_backup'' = Some (VBool True)"
    by (simp_all add: row_b_def)
  have "\<not> spec_sorted [row_a, row_b]"
    by (simp add: spec_sorted_def spec_before_def a b)
  then show ?thesis using r a b by simp
qed

text \<open>
  C4, amended. On a wallet with a Lightning engine \<open>init_model\<close> returns. The new list
  has one row for each channel object: it is a permutation of the rows that
  \<open>channel_to_model\<close> gives for the channel objects. It is sorted ascending by the key
  \<open>chan_sort_score\<close>, which is the state code, plus 10 for a backup. The signals are a
  reset, the insertion of rows 0 to \<open>N - 1\<close> and the change of the count.
\<close>

theorem init_model_sorted_by_score:
  assumes "lnworker wallet = Some lnw"
  shows "\<exists>chans items.
     init_model wallet self =
       Inr (self\<lparr>channels := Some chans\<rparr>,
            [LogDebug (Msg ''init_model''), BeginResetModel, EndResetModel,
             BeginInsertRows 0 (int (length chans) - 1), EndInsertRows, CountChanged]) \<and>
     length chans = length (get_channel_objects lnw) \<and>
     list_all2 (\<lambda>lnc item. channel_to_model wallet lnc = Inr item \<and>
         chan_sort_score item = Inr (get_state lnc + (if is_backup lnc then 10 else 0)))
       (get_channel_objects lnw) items \<and>
     mset chans = mset items \<and>
     (\<exists>ks. map chan_sort_score chans = map Inr ks \<and> sorted ks)"
proof -
  from init_model_Some[OF assms, of self] obtain items
    where rel: "list_all2 (\<lambda>lnc item. channel_to_model wallet lnc = Inr item)
                  (get_channel_objects lnw) items"
      and res: "init_model wallet self =
            Inr (self\<lparr>channels := Some (sort_key sort_score items)\<rparr>,
                 [LogDebug (Msg ''init_model''), BeginResetModel, EndResetModel,
                  BeginInsertRows 0 (int (length items) - 1), EndInsertRows, CountChanged])"
    by blast
  let ?chans = "sort_key sort_score items"
  have len: "length ?chans = length (get_channel_objects lnw)"
    using rel by (simp add: list_all2_lengthD)
  have rel2: "list_all2 (\<lambda>lnc item. channel_to_model wallet lnc = Inr item \<and>
         chan_sort_score item = Inr (get_state lnc + (if is_backup lnc then 10 else 0)))
       (get_channel_objects lnw) items"
    using rel by (rule list_all2_mono) (simp add: chan_sort_score_channel)
  have "\<forall>r\<in>set items. model_row r" using rel by (rule list_all2_model_rows)
  then have "\<forall>r\<in>set ?chans. chan_sort_score r = Inr (sort_score r)"
    by (simp add: model_row_score)
  then have "map chan_sort_score ?chans = map Inr (map sort_score ?chans)"
    by simp
  moreover have "sorted (map sort_score ?chans)" by (rule sorted_sort_key)
  ultimately have srt: "\<exists>ks. map chan_sort_score ?chans = map Inr ks \<and> sorted ks"
    by blast
  show ?thesis
    using res len rel2 srt
    by (intro exI[of _ ?chans] exI[of _ items]) simp
qed

theorem init_model_sorted_by_score_witness:
  "lnworker wallet_ab = Some lnw_ab \<and>
   init_model wallet_ab new_self =
     Inr (new_self\<lparr>channels := Some [row_a, row_b]\<rparr>,
          [LogDebug (Msg ''init_model''), BeginResetModel, EndResetModel,
           BeginInsertRows 0 1, EndInsertRows, CountChanged]) \<and>
   map chan_sort_score [row_a, row_b] = map Inr [3, 12] \<and> sorted [3, 12 :: int]"
  using init_model_sorted_by_score[OF lnworker_wallet_ab, of new_self]
  by (simp add: lnworker_wallet_ab init_model_wallet_ab chan_sort_score_row_a
      chan_sort_score_row_b)

text \<open>
  C5. In a list of model rows, let \<open>c\<close> be the first row whose \<open>cid\<close> is the id of the
  channel, \<open>pre\<close> the rows before it and \<open>post\<close> the rows after it. On a wallet with a
  Lightning engine \<open>on_channel_updated\<close> returns, the row \<open>c\<close> is replaced by the row
  that \<open>channel_to_model\<close> computes from the channel, \<open>pre\<close> and \<open>post\<close> stay as they
  are, the length is the same, and the signals are one change of data for that row
  (all roles) and one change of the number of open channels.
\<close>

theorem on_channel_updated_replaces_row:
  assumes "lnworker wallet = Some lnw"
    and "model_rows self"
    and "channels self = Some (pre @ c # post)"
    and "c ''cid'' = Some (VStr (bytes_hex (channel_id channel)))"
    and "\<forall>r\<in>set pre. r ''cid'' \<noteq> Some (VStr (bytes_hex (channel_id channel)))"
  shows "\<exists>item. channel_to_model wallet channel = Inr item \<and>
     on_channel_updated wallet self channel =
       Inr (self\<lparr>channels := Some (pre @ item # post)\<rparr>,
            [LogDebug (Msg (''updating our channel '' @ short_id_for_GUI channel)),
             DataChanged (int (length pre)) (int (length pre)) ROLE_KEYS,
             NumOpenChannelsChanged]) \<and>
     length (pre @ item # post) = length (pre @ c # post)"
proof -
  from channel_to_model_Some[OF assms(1)] obtain item
    where item: "channel_to_model wallet channel = Inr item" by blast
  have rows: "\<forall>r\<in>set (pre @ c # post). model_row r"
    using assms(2,3) by (simp add: model_rows_def list_all_iff)
  then have pre: "\<forall>r\<in>set pre. r ''cid'' \<noteq> None \<and>
      r ''cid'' \<noteq> Some (VStr (bytes_hex (channel_id channel)))"
    using assms(5) by (simp add: model_row_has_cid)
  have "model_row c" using rows by simp
  then have "c ++ item = item"
    using item by (simp add: model_row_map_add model_row_channel)
  then show ?thesis
    using on_channel_updated_found[OF assms(3) pre assms(4) item] item by simp
qed

theorem on_channel_updated_replaces_row_witness:
  "lnworker wallet_ab = Some lnw_ab \<and> model_rows self_ab \<and>
   channels self_ab = Some ([row_a] @ row_b # []) \<and>
   row_b ''cid'' = Some (VStr (bytes_hex (channel_id chan_b))) \<and>
   row_a ''cid'' \<noteq> Some (VStr (bytes_hex (channel_id chan_b))) \<and>
   on_channel_updated wallet_ab self_ab chan_b =
     Inr (self_ab\<lparr>channels := Some ([row_a] @ row_b # [])\<rparr>,
          [LogDebug (Msg (''updating our channel '' @ short_id_for_GUI chan_b)),
           DataChanged 1 1 ROLE_KEYS, NumOpenChannelsChanged])"
proof -
  have h3: "channels self_ab = Some ([row_a] @ row_b # [])"
    by (simp add: channels_self_ab)
  have h4: "row_b ''cid'' = Some (VStr (bytes_hex (channel_id chan_b)))"
    by (simp add: row_b_cid bytes_hex_chan_b)
  have h5: "\<forall>r\<in>set [row_a]. r ''cid'' \<noteq> Some (VStr (bytes_hex (channel_id chan_b)))"
    by (simp add: row_a_cid bytes_hex_chan_b)
  show ?thesis
    using on_channel_updated_replaces_row[OF lnworker_wallet_ab model_rows_self_ab h3 h4 h5]
      h3 h4 h5
    by (simp add: lnworker_wallet_ab model_rows_self_ab channel_to_model_chan_b)
qed

text \<open>
  C6. On a wallet with a Lightning engine and an adapter that has a list:
  if \<open>channel\<close> is the first channel of \<open>lnworker.channels\<close> whose id in hexadecimal is
  \<open>cid\<close>, \<open>new_channel\<close> puts the row of that channel at position 0 before the rows
  that were there, and signals the insertion of row 0 and the change of the count; if
  no channel of \<open>lnworker.channels\<close> has that id, the object is returned as it was and
  the only output is the debug line.
\<close>

theorem new_channel_prepends_row:
  assumes "lnworker wallet = Some lnw"
    and "channels self = Some chans"
  shows "(find (\<lambda>c. cid = bytes_hex (channel_id c)) (lnchannels lnw) = Some channel \<longrightarrow>
      (\<exists>item. channel_to_model wallet channel = Inr item \<and>
         new_channel wallet self cid =
           Inr (self\<lparr>channels := Some (item # chans)\<rparr>,
                [LogDebug (Msg (''new channel with cid '' @ cid)), LogDebug (MsgItem item),
                 BeginInsertRows 0 0, EndInsertRows, CountChanged]))) \<and>
     (find (\<lambda>c. cid = bytes_hex (channel_id c)) (lnchannels lnw) = None \<longrightarrow>
        new_channel wallet self cid =
          Inr (self, [LogDebug (Msg (''new channel with cid '' @ cid))]))"
proof (intro conjI impI)
  assume f: "find (\<lambda>c. cid = bytes_hex (channel_id c)) (lnchannels lnw) = Some channel"
  from channel_to_model_Some[OF assms(1)] obtain item
    where item: "channel_to_model wallet channel = Inr item" by blast
  show "\<exists>item. channel_to_model wallet channel = Inr item \<and>
         new_channel wallet self cid =
           Inr (self\<lparr>channels := Some (item # chans)\<rparr>,
                [LogDebug (Msg (''new channel with cid '' @ cid)), LogDebug (MsgItem item),
                 BeginInsertRows 0 0, EndInsertRows, CountChanged])"
    using new_channel_found[OF assms(1) f item assms(2)] item by blast
next
  assume "find (\<lambda>c. cid = bytes_hex (channel_id c)) (lnchannels lnw) = None"
  then show "new_channel wallet self cid =
      Inr (self, [LogDebug (Msg (''new channel with cid '' @ cid))])"
    using assms(1) by (rule new_channel_absent[rotated])
qed

theorem new_channel_prepends_row_witness:
  "lnworker wallet_ab = Some lnw_ab \<and> channels self_ab = Some [row_a, row_b] \<and>
   find (\<lambda>c. ''ab'' = bytes_hex (channel_id c)) (lnchannels lnw_ab) = Some chan_a \<and>
   new_channel wallet_ab self_ab ''ab'' =
     Inr (self_ab\<lparr>channels := Some (row_a # [row_a, row_b])\<rparr>,
          [LogDebug (Msg (''new channel with cid '' @ ''ab'')), LogDebug (MsgItem row_a),
           BeginInsertRows 0 0, EndInsertRows, CountChanged]) \<and>
   find (\<lambda>c. ''0c'' = bytes_hex (channel_id c)) (lnchannels lnw_ab) = None \<and>
   new_channel wallet_ab self_ab ''0c'' =
     Inr (self_ab, [LogDebug (Msg (''new channel with cid '' @ ''0c''))])"
proof -
  have f1: "find (\<lambda>c. ''ab'' = bytes_hex (channel_id c)) (lnchannels lnw_ab) = Some chan_a"
    by (simp add: lnchannels_lnw_ab bytes_hex_chan_a)
  have f2: "find (\<lambda>c. ''0c'' = bytes_hex (channel_id c)) (lnchannels lnw_ab) = None"
    by (simp add: lnchannels_lnw_ab bytes_hex_chan_a)
  show ?thesis
    using new_channel_prepends_row[OF lnworker_wallet_ab channels_self_ab,
        of "''ab''" chan_a]
      new_channel_prepends_row[OF lnworker_wallet_ab channels_self_ab, of "''0c''" chan_a]
      f1 f2
    by (simp add: lnworker_wallet_ab channels_self_ab channel_to_model_chan_a)
qed

text \<open>
  C7. In a list of model rows: if \<open>c\<close> is the first row whose \<open>cid\<close> is \<open>cid\<close>, with
  \<open>pre\<close> before it and \<open>post\<close> after it, \<open>remove_channel\<close> leaves \<open>pre @ post\<close> and
  signals the removal of the row at that index and the change of the count; if no row
  has that \<open>cid\<close>, the object is returned as it was and the only output is the debug
  line.
\<close>

theorem remove_channel_deletes_row:
  assumes "model_rows self"
    and "channels self = Some chans"
  shows "(chans = pre @ c # post \<and> c ''cid'' = Some (VStr cid) \<and>
      (\<forall>r\<in>set pre. r ''cid'' \<noteq> Some (VStr cid)) \<longrightarrow>
        remove_channel self cid =
          Inr (self\<lparr>channels := Some (pre @ post)\<rparr>,
               [LogDebug (Msg (''remove channel with cid '' @ cid)), LogDebug (Msg cid),
                BeginRemoveRows (int (length pre)) (int (length pre)), EndRemoveRows,
                CountChanged])) \<and>
     ((\<forall>r\<in>set chans. r ''cid'' \<noteq> Some (VStr cid)) \<longrightarrow>
        remove_channel self cid =
          Inr (self, [LogDebug (Msg (''remove channel with cid '' @ cid))]))"
proof -
  have rows: "\<forall>r\<in>set chans. r ''cid'' \<noteq> None"
    using assms by (simp add: model_rows_def list_all_iff model_row_has_cid)
  show ?thesis
  proof (intro conjI impI)
    assume h: "chans = pre @ c # post \<and> c ''cid'' = Some (VStr cid) \<and>
      (\<forall>r\<in>set pre. r ''cid'' \<noteq> Some (VStr cid))"
    then have pre: "\<forall>r\<in>set pre. r ''cid'' \<noteq> None \<and> r ''cid'' \<noteq> Some (VStr cid)"
      using rows by simp
    have ch: "channels self = Some (pre @ c # post)" using assms(2) h by simp
    have c: "c ''cid'' = Some (VStr cid)" using h by simp
    show "remove_channel self cid =
          Inr (self\<lparr>channels := Some (pre @ post)\<rparr>,
               [LogDebug (Msg (''remove channel with cid '' @ cid)), LogDebug (Msg cid),
                BeginRemoveRows (int (length pre)) (int (length pre)), EndRemoveRows,
                CountChanged])"
      using ch pre c by (rule remove_channel_found)
  next
    assume "\<forall>r\<in>set chans. r ''cid'' \<noteq> Some (VStr cid)"
    then have "\<forall>r\<in>set chans. r ''cid'' \<noteq> None \<and> r ''cid'' \<noteq> Some (VStr cid)"
      using rows by simp
    with assms(2) show "remove_channel self cid =
          Inr (self, [LogDebug (Msg (''remove channel with cid '' @ cid))])"
      by (rule remove_channel_absent)
  qed
qed

theorem remove_channel_deletes_row_witness:
  "model_rows self_ab \<and> channels self_ab = Some [row_a, row_b] \<and>
   [row_a, row_b] = [row_a] @ row_b # [] \<and> row_b ''cid'' = Some (VStr ''0c'') \<and>
   row_a ''cid'' \<noteq> Some (VStr ''0c'') \<and>
   remove_channel self_ab ''0c'' =
     Inr (self_ab\<lparr>channels := Some ([row_a] @ [])\<rparr>,
          [LogDebug (Msg (''remove channel with cid '' @ ''0c'')), LogDebug (Msg ''0c''),
           BeginRemoveRows 1 1, EndRemoveRows, CountChanged]) \<and>
   row_a ''cid'' \<noteq> Some (VStr ''ff'') \<and> row_b ''cid'' \<noteq> Some (VStr ''ff'') \<and>
   remove_channel self_ab ''ff'' =
     Inr (self_ab, [LogDebug (Msg (''remove channel with cid '' @ ''ff''))])"
  using remove_channel_deletes_row[OF model_rows_self_ab channels_self_ab,
      of "[row_a]" row_b "[]" "''0c''"]
    remove_channel_deletes_row[OF model_rows_self_ab channels_self_ab,
      of "[row_a]" row_b "[]" "''ff''"]
  by (simp add: model_rows_self_ab channels_self_ab row_a_cid row_b_cid)

text \<open>
  C8, on the code. The constructor on a wallet without a Lightning engine returns an
  object on which \<open>self.channels\<close> was never assigned; \<open>numOpenChannels\<close> on that
  object raises \<open>AttributeError\<close>, where the count of the rows in the open state
  would be 0.
\<close>

theorem numOpenChannels_raises_without_list:
  "init wallet_none =
     Inr (new_self, [LogDebug (Msg ''init_model''),
                     LogWarning (Msg ''lnworker should be defined'')]) \<and>
   run [] new_self = Inr new_self \<and>
   numOpenChannels 3 new_self = Inl AttributeError"
proof -
  have "numOpenChannels 3 new_self = Inl AttributeError"
    by (simp add: numOpenChannels_def channels_new_self)
  then show ?thesis using init_wallet_none by simp
qed

text \<open>
  C9. \<open>init_model\<close> on a wallet without a Lightning engine returns the object as it was,
  with two log lines (a debug line and the warning) and no signal to the framework.
\<close>

theorem init_model_without_lnworker_noop:
  "lnworker wallet = None \<Longrightarrow>
   init_model wallet self =
     Inr (self, [LogDebug (Msg ''init_model''), LogWarning (Msg ''lnworker should be defined'')])"
  by (rule init_model_None)

theorem init_model_without_lnworker_noop_witness:
  "lnworker wallet_none = None \<and>
   init_model wallet_none self_ab =
     Inr (self_ab, [LogDebug (Msg ''init_model''), LogWarning (Msg ''lnworker should be defined'')])"
  using init_model_without_lnworker_noop[of wallet_none self_ab]
  by (simp add: lnworker_wallet_none)

text \<open>
  C10. For a wallet with a Lightning engine \<open>channel_to_model\<close> returns a row. For a
  backup the four amounts \<open>can_send\<close>, \<open>can_receive\<close>, \<open>local_capacity\<close> and
  \<open>remote_capacity\<close> are the empty amount \<open>QEAmount()\<close> and \<open>is_imported\<close> is the
  attribute of the channel; for any other channel \<open>is_imported\<close> is \<open>False\<close>.
\<close>

theorem channel_to_model_backup_fields:
  "lnworker wallet = Some lnw \<Longrightarrow>
   \<exists>item. channel_to_model wallet lnc = Inr item \<and>
     (is_backup lnc \<longrightarrow>
        item ''can_send'' = Some (VAmount (QEAmount None None)) \<and>
        item ''can_receive'' = Some (VAmount (QEAmount None None)) \<and>
        item ''local_capacity'' = Some (VAmount (QEAmount None None)) \<and>
        item ''remote_capacity'' = Some (VAmount (QEAmount None None)) \<and>
        item ''is_imported'' = Some (VBool (is_imported lnc))) \<and>
     (\<not> is_backup lnc \<longrightarrow> item ''is_imported'' = Some (VBool False))"
  by (simp add: channel_to_model_def Let_def)

theorem channel_to_model_backup_fields_witness:
  "lnworker wallet_ab = Some lnw_ab \<and> is_backup chan_b \<and> \<not> is_backup chan_a \<and>
   channel_to_model wallet_ab chan_b = Inr row_b \<and>
   row_b ''can_send'' = Some (VAmount (QEAmount None None)) \<and>
   row_b ''can_receive'' = Some (VAmount (QEAmount None None)) \<and>
   row_b ''local_capacity'' = Some (VAmount (QEAmount None None)) \<and>
   row_b ''remote_capacity'' = Some (VAmount (QEAmount None None)) \<and>
   row_b ''is_imported'' = Some (VBool (is_imported chan_b)) \<and>
   channel_to_model wallet_ab chan_a = Inr row_a \<and>
   row_a ''is_imported'' = Some (VBool False)"
proof -
  have b: "is_backup chan_b" "is_imported chan_b" by (simp_all add: chan_b_def)
  have a: "\<not> is_backup chan_a" by (simp add: chan_a_def)
  show ?thesis
    using channel_to_model_backup_fields[OF lnworker_wallet_ab, of chan_b]
      channel_to_model_backup_fields[OF lnworker_wallet_ab, of chan_a] a b
    by (simp add: lnworker_wallet_ab channel_to_model_chan_a channel_to_model_chan_b)
qed

end
